theory Spec2Isabelle
  imports Complex_Main "HOL-Library.Sublist" "HOL-Library.Log_Nat"
begin

section \<open>JavaScript strings\<close>

text \<open>
  A JavaScript string is modelled as the list of its UTF-16 code units, restricted to the
  units below 256 (the Latin-1 range), which is what \<^typ>\<open>char\<close> holds.  On that
  range \<open>String.prototype.toLowerCase\<close> acts unit by unit: it maps \<open>A\<close>..\<open>Z\<close> and the
  capital letters U+00C0..U+00DE (the multiplication sign U+00D7 apart) to the unit 32
  above, and leaves every other unit alone.
\<close>

definition toLowerChar :: "char \<Rightarrow> char" where
  "toLowerChar c =
     (let n = (of_char c :: nat)
      in if (65 \<le> n \<and> n \<le> 90) \<or> (192 \<le> n \<and> n \<le> 222 \<and> n \<noteq> 215)
         then char_of (n + 32) else c)"

definition toLowerCase :: "string \<Rightarrow> string" where
  "toLowerCase s = map toLowerChar s"

definition startsWith :: "string \<Rightarrow> string \<Rightarrow> bool" where
  "startsWith s p = (take (length p) s = p)"

definition endsWith :: "string \<Rightarrow> string \<Rightarrow> bool" where
  "endsWith s p = (length p \<le> length s \<and> drop (length s - length p) s = p)"

text \<open>\<open>s.includes(p)\<close>: the search tries every start position from the left.\<close>

fun includesStr :: "string \<Rightarrow> string \<Rightarrow> bool" where
  "includesStr [] p = (p = [])"
| "includesStr (c # cs) p = (startsWith (c # cs) p \<or> includesStr cs p)"

text \<open>
  \<open>\d\<close> is \<open>0\<close>..\<open>9\<close>.  \<open>\s\<close>, and the units \<open>trim\<close> strips, are the white space and
  line terminators of the language; below 256 these are TAB, LF, VT, FF, CR, SP and NBSP.
\<close>

definition isDigit :: "char \<Rightarrow> bool" where
  "isDigit c = (let n = (of_char c :: nat) in 48 \<le> n \<and> n \<le> 57)"

definition isAlpha :: "char \<Rightarrow> bool" where
  "isAlpha c = (let n = (of_char c :: nat) in (65 \<le> n \<and> n \<le> 90) \<or> (97 \<le> n \<and> n \<le> 122))"

definition isSpace :: "char \<Rightarrow> bool" where
  "isSpace c = (let n = (of_char c :: nat) in (9 \<le> n \<and> n \<le> 13) \<or> n = 32 \<or> n = 160)"

definition trim :: "string \<Rightarrow> string" where
  "trim s = rev (dropWhile isSpace (rev (dropWhile isSpace s)))"

text \<open>
  A \<open>Set\<close> of strings keeps its members in insertion order, and \<open>Array.from\<close> lists them
  in that order: the model is the list of the members, \<open>setAdd\<close> is \<open>Set.prototype.add\<close>.
\<close>

definition setAdd :: "string list \<Rightarrow> string \<Rightarrow> string list" where
  "setAdd xs x = (if x \<in> set xs then xs else xs @ [x])"

section \<open>Regular expressions\<close>

text \<open>
  The patterns of the program use character classes, sequence, \<open>?\<close>, \<open>{lo,hi}\<close>, \<open>*\<close> and
  \<open>+\<close>, all greedy.  \<open>matchRe r s\<close> lists what is left of \<open>s\<close> after each way \<open>r\<close> can
  match at the start of \<open>s\<close>, in the order in which the backtracking engine of the language
  tries them, so its head is the match the engine reports.  An iteration of \<open>*\<close> that
  consumes nothing is refused, as the language's \<open>RepeatMatcher\<close> does.
\<close>

datatype regex =
    Chr "char \<Rightarrow> bool"
  | Seq regex regex
  | Opt regex
  | Rep nat nat regex
  | Star regex

fun rep :: "(string \<Rightarrow> string list) \<Rightarrow> nat \<Rightarrow> nat \<Rightarrow> string \<Rightarrow> string list" where
  "rep f lo 0 s = (if lo = 0 then [s] else [])"
| "rep f lo (Suc hi) s =
     concat (map (rep f (lo - 1) hi) (f s)) @ (if lo = 0 then [s] else [])"

fun many :: "(string \<Rightarrow> string list) \<Rightarrow> nat \<Rightarrow> string \<Rightarrow> string list" where
  "many f 0 s = [s]"
| "many f (Suc n) s =
     concat (map (many f n) (filter (\<lambda>t. length t < length s) (f s))) @ [s]"

primrec matchRe :: "regex \<Rightarrow> string \<Rightarrow> string list" where
  "matchRe (Chr p) = (\<lambda>s. case s of [] \<Rightarrow> [] | c # cs \<Rightarrow> if p c then [cs] else [])"
| "matchRe (Seq a b) = (\<lambda>s. concat (map (matchRe b) (matchRe a s)))"
| "matchRe (Opt a) = (\<lambda>s. matchRe a s @ [s])"
| "matchRe (Rep lo hi a) = rep (matchRe a) lo hi"
| "matchRe (Star a) = (\<lambda>s. many (matchRe a) (length s) s)"

definition Plus :: "regex \<Rightarrow> regex" where
  "Plus a = Seq a (Star a)"

fun seqs :: "regex list \<Rightarrow> regex" where
  "seqs [] = Rep 0 0 (Chr (\<lambda>_. False))"
| "seqs [a] = a"
| "seqs (a # as) = Seq a (seqs as)"

definition lit :: "char \<Rightarrow> regex" where
  "lit c = Chr (\<lambda>x. x = c)"

text \<open>
  With the flag \<open>i\<close> two units match when their canonical (upper-case) forms agree; a unit
  whose upper-case form lies outside the range below 256, or is not a single unit, keeps
  its own form there.
\<close>

definition canonicalize :: "char \<Rightarrow> char" where
  "canonicalize c =
     (let n = (of_char c :: nat)
      in if (97 \<le> n \<and> n \<le> 122) \<or> (224 \<le> n \<and> n \<le> 254 \<and> n \<noteq> 247)
         then char_of (n - 32) else c)"

definition liti :: "char \<Rightarrow> regex" where
  "liti c = Chr (\<lambda>x. canonicalize x = canonicalize c)"

text \<open>
  \<open>s.match(r)\<close> with the flag \<open>g\<close>: the matches from left to right, each search starting
  where the last match ended (one unit further after an empty match).  The second argument
  counts the units of the last match that are still to be skipped.
\<close>

fun matchAllFrom :: "regex \<Rightarrow> nat \<Rightarrow> string \<Rightarrow> string list" where
  "matchAllFrom r k [] = (if k = 0 \<and> matchRe r [] \<noteq> [] then [[]] else [])"
| "matchAllFrom r k (c # cs) =
     (if 0 < k then matchAllFrom r (k - 1) cs
      else case matchRe r (c # cs) of
             [] \<Rightarrow> matchAllFrom r 0 cs
           | t # _ \<Rightarrow>
               (let n = length (c # cs) - length t
                in take n (c # cs) # matchAllFrom r (n - 1) cs))"

definition matchAll :: "regex \<Rightarrow> string \<Rightarrow> string list" where
  "matchAll r s = matchAllFrom r 0 s"

text \<open>\<open>s.replace(r, w)\<close> with the flag \<open>g\<close>: every match is replaced by \<open>w\<close>.\<close>

fun replaceAllFrom :: "regex \<Rightarrow> string \<Rightarrow> nat \<Rightarrow> string \<Rightarrow> string" where
  "replaceAllFrom r w k [] = (if k = 0 \<and> matchRe r [] \<noteq> [] then w else [])"
| "replaceAllFrom r w k (c # cs) =
     (if 0 < k then replaceAllFrom r w (k - 1) cs
      else case matchRe r (c # cs) of
             [] \<Rightarrow> c # replaceAllFrom r w 0 cs
           | t # _ \<Rightarrow>
               (let n = length (c # cs) - length t
                in if n = 0 then w @ c # replaceAllFrom r w 0 cs
                   else w @ replaceAllFrom r w (n - 1) cs))"

definition replaceAll :: "regex \<Rightarrow> string \<Rightarrow> string \<Rightarrow> string" where
  "replaceAll r w s = replaceAllFrom r w 0 s"

text \<open>\<open>r.test(s)\<close> for a pattern \<open>^r\<close>: the anchor lets it match at index 0 only.\<close>

definition testAnchored :: "regex \<Rightarrow> string \<Rightarrow> bool" where
  "testAnchored r s = (matchRe r s \<noteq> [])"

section \<open>The network, the parser and the validator\<close>

text \<open>
  The program reaches the outside through \<open>axios.get\<close>, \<open>cheerio.load\<close>,
  \<open>validator.isEmail\<close>, the \<open>URL\<close> constructor and the clock.  They are the fields of \<open>env\<close>.  A request may
  answer differently each time it is made, so \<open>get\<close> and \<open>now\<close> take the number of
  requests made so far, and every function that makes requests returns that number with
  its result.  A raised \<open>Error\<close> is its message.
\<close>

datatype error = Error (message: string)

text \<open>
  \<open>axios\<close> hands a body over as the string it is, unless the body is valid JSON: then
  \<open>response.data\<close> is the parsed value.  \<open>data\<close> is \<open>response.data\<close> when that is a string,
  and the text of the body otherwise; \<open>notText\<close> is \<open>None\<close> in the first case, and in the
  second holds the message of the \<open>TypeError\<close> that a string method raises on the parsed
  value (on an object: \<open>html.toLowerCase is not a function\<close>).  What \<open>cheerio.load\<close> makes
  of \<open>response.data\<close> is determined by the body, so \<open>load\<close> is applied to \<open>data\<close>.
\<close>

record response =
  status :: nat
  data :: string
  notText :: "string option"

record form =
  action :: "string option"
  formMethod :: "string option"
  emailFields :: nat
  messageFields :: nat

text \<open>
  What the program asks of a parsed document: \<open>$.text()\<close>; the \<open>content\<close> of
  \<open>meta[name="generator"]\<close>; the \<open>href\<close> of every \<open>link\<close> and of every \<open>a\<close> element that
  has one, in document order; the \<open>class\<close> of \<open>body\<close>; the \<open>data-email\<close> attributes;
  and per \<open>form\<close> its \<open>action\<close>, its \<open>method\<close> and the numbers of elements matching
  \<open>input[type="email"], input[name*="email"]\<close> and \<open>textarea, input[name*="message"]\<close>.
\<close>

record dom =
  pageText :: string
  generator :: "string option"
  linkHrefs :: "string list"
  bodyClass :: "string option"
  hrefs :: "string list"
  dataEmails :: "string list"
  forms :: "form list"

text \<open>\<open>new URL(s)\<close> raises on a string it cannot parse (\<open>None\<close>).\<close>

record urlObj =
  protocol :: string
  hostname :: string
  pathname :: string

record env =
  get :: "nat \<Rightarrow> string \<Rightarrow> error + response"
  load :: "string \<Rightarrow> dom"
  isEmail :: "string \<Rightarrow> bool"
  newURL :: "string \<Rightarrow> urlObj option"
  now :: "nat \<Rightarrow> string"

definition ensureProtocol :: "string \<Rightarrow> string" where
  "ensureProtocol u =
     (if \<not> startsWith u ''http://'' \<and> \<not> startsWith u ''https://'' then ''https://'' @ u else u)"

section \<open>SearchDiscoverer: deduplication of search results\<close>

record searchResult =
  url :: string
  title :: string
  description :: string
  source :: string

text \<open>
  \<open>deduplicateResults\<close> filters the results with a \<open>Set\<close> of the lower-cased URLs seen
  so far; \<open>dedupFrom\<close> is the filter's loop with that set as its state.
\<close>

fun dedupFrom :: "string set \<Rightarrow> searchResult list \<Rightarrow> searchResult list" where
  "dedupFrom seen [] = []"
| "dedupFrom seen (r # rs) =
     (let key = toLowerCase (url r)
      in if key \<in> seen then dedupFrom seen rs
         else r # dedupFrom (insert key seen) rs)"

definition deduplicateResults :: "searchResult list \<Rightarrow> searchResult list" where
  "deduplicateResults results = dedupFrom {} results"

section \<open>ContactExtractor\<close>

text \<open>\<open>[a-zA-Z0-9._%+-]\<close> and \<open>[a-zA-Z0-9.-]\<close>, the classes of the e-mail patterns.\<close>

definition localChar :: "char \<Rightarrow> bool" where
  "localChar c = (isAlpha c \<or> isDigit c \<or> c \<in> set ''._%+-'')"

definition domainChar :: "char \<Rightarrow> bool" where
  "domainChar c = (isAlpha c \<or> isDigit c \<or> c \<in> set ''.-'')"

definition spaces :: regex where
  "spaces = Star (Chr isSpace)"

text \<open>\<open>/[a-zA-Z0-9._%+-]+@[a-zA-Z0-9.-]+\.[a-zA-Z]{2,}/g\<close>\<close>

definition emailRegex :: regex where
  "emailRegex =
     seqs [Plus (Chr localChar), lit CHR ''@'', Plus (Chr domainChar), lit CHR ''.'',
           Rep 2 2 (Chr isAlpha), Star (Chr isAlpha)]"

text \<open>\<open>/\s*\[\s*at\s*\]\s*/g\<close> and \<open>/\s*\[\s*dot\s*\]\s*/g\<close>\<close>

definition atToken :: regex where
  "atToken =
     seqs [spaces, lit CHR ''['', spaces, lit CHR ''a'', lit CHR ''t'', spaces, lit CHR '']'', spaces]"

definition dotToken :: regex where
  "dotToken =
     seqs [spaces, lit CHR ''['', spaces, lit CHR ''d'', lit CHR ''o'', lit CHR ''t'', spaces,
           lit CHR '']'', spaces]"

text \<open>
  \<open>/[a-zA-Z0-9._%+-]+\s*\[\s*at\s*\]\s*[a-zA-Z0-9.-]+\s*\[\s*dot\s*\]\s*[a-zA-Z]{2,}/g\<close>
\<close>

definition obfuscatedRegex :: regex where
  "obfuscatedRegex =
     seqs [Plus (Chr localChar), atToken, Plus (Chr domainChar), dotToken,
           Rep 2 2 (Chr isAlpha), Star (Chr isAlpha)]"

text \<open>
  \<open>/(\+?\d{1,4}[-.\s]?)?\(?\d{1,4}\)?[-.\s]?\d{1,4}[-.\s]?\d{1,9}/g\<close>
\<close>

definition sepChar :: "char \<Rightarrow> bool" where
  "sepChar c = (c = CHR ''-'' \<or> c = CHR ''.'' \<or> isSpace c)"

definition phoneRegex :: regex where
  "phoneRegex =
     seqs [Opt (seqs [Opt (lit CHR ''+''), Rep 1 4 (Chr isDigit), Opt (Chr sepChar)]),
           Opt (lit CHR ''(''), Rep 1 4 (Chr isDigit), Opt (lit CHR '')''), Opt (Chr sepChar),
           Rep 1 4 (Chr isDigit), Opt (Chr sepChar), Rep 1 9 (Chr isDigit)]"

definition extractEmailsFromText :: "env \<Rightarrow> string \<Rightarrow> string list" where
  "extractEmailsFromText e t = foldl setAdd [] (filter (isEmail e) (matchAll emailRegex t))"

text \<open>The target of a \<open>mailto:\<close> link: \<open>href.replace('mailto:', '').split('?')[0]\<close>.\<close>

definition mailtoTarget :: "string \<Rightarrow> string" where
  "mailtoTarget href = takeWhile (\<lambda>c. c \<noteq> CHR ''?'') (drop (length ''mailto:'') href)"

definition deobfuscate :: "string \<Rightarrow> string" where
  "deobfuscate s =
     replaceAll (Chr isSpace) [] (replaceAll dotToken ''.'' (replaceAll atToken ''@'' s))"

definition addIfEmail :: "env \<Rightarrow> string list \<Rightarrow> string \<Rightarrow> string list" where
  "addIfEmail e acc x = (if isEmail e x then setAdd acc x else acc)"

text \<open>
  \<open>extractEmailsFromPage\<close> makes a request of its own; when it fails the function
  returns the empty list.
\<close>

definition extractEmailsFromPage :: "env \<Rightarrow> nat \<Rightarrow> string \<Rightarrow> string list \<times> nat" where
  "extractEmailsFromPage e n u =
     (case get e n u of
        Inl err \<Rightarrow> ([], Suc n)
      | Inr r \<Rightarrow>
          (let d = load e (data r);
               emails0 = foldl setAdd [] (extractEmailsFromText e (pageText d));
               emails1 = foldl (addIfEmail e) emails0
                           (map mailtoTarget (filter (\<lambda>h. startsWith h ''mailto:'') (hrefs d)));
               emails2 = foldl (addIfEmail e) emails1 (dataEmails d);
               emails3 = foldl (addIfEmail e) emails2
                           (map deobfuscate (matchAll obfuscatedRegex (pageText d)))
           in (emails3, Suc n)))"

datatype platform = Facebook | Twitter | Linkedin | Instagram | Other

record contactForm =
  formUrl :: string
  formAction :: string
  submitMethod :: string

record contactInfo =
  emails :: "string list"
  phones :: "string list"
  socialMedia :: "platform \<Rightarrow> string option"
  contactForms :: "contactForm list"

definition commonPages :: "string list" where
  "commonPages =
     [[], ''/contact'', ''/contact-us'', ''/about'', ''/about-us'', ''/team'', ''/staff'',
      ''/privacy'', ''/privacy-policy'', ''/terms'', ''/legal'', ''/imprint'', ''/impressum'']"

text \<open>\<open>phone.replace(/[^\d+]/g, '')\<close>\<close>

definition cleanPhone :: "string \<Rightarrow> string" where
  "cleanPhone phone = replaceAll (Chr (\<lambda>c. \<not> (isDigit c \<or> c = CHR ''+''))) [] phone"

definition addPhone :: "string list \<Rightarrow> string \<Rightarrow> string list" where
  "addPhone ps phone = (if 7 \<le> length (cleanPhone phone) then setAdd ps (trim phone) else ps)"

text \<open>
  The anchors selected by
  \<open>a[href*="facebook.com"], a[href*="twitter.com"], a[href*="linkedin.com"], a[href*="instagram.com"]\<close>,
  in document order, and the platform the loop body files each under.
\<close>

definition socialSelected :: "string \<Rightarrow> bool" where
  "socialSelected href =
     (includesStr href ''facebook.com'' \<or> includesStr href ''twitter.com'' \<or>
      includesStr href ''linkedin.com'' \<or> includesStr href ''instagram.com'')"

definition platformOf :: "string \<Rightarrow> platform" where
  "platformOf href =
     (if includesStr href ''facebook'' then Facebook
      else if includesStr href ''twitter'' then Twitter
      else if includesStr href ''linkedin'' then Linkedin
      else if includesStr href ''instagram'' then Instagram
      else Other)"

definition addSocial :: "(platform \<Rightarrow> string option) \<Rightarrow> string \<Rightarrow> (platform \<Rightarrow> string option)" where
  "addSocial sm href = sm(platformOf href \<mapsto> href)"

definition addForm :: "string \<Rightarrow> contactForm list \<Rightarrow> form \<Rightarrow> contactForm list" where
  "addForm u fs f =
     (if 0 < emailFields f \<and> 0 < messageFields f
      then fs @ [\<lparr> formUrl = u,
                   formAction = (case action f of None \<Rightarrow> [] | Some a \<Rightarrow> a),
                   submitMethod = (case formMethod f of None \<Rightarrow> ''POST''
                                   | Some m \<Rightarrow> if m = [] then ''POST'' else m) \<rparr>]
      else fs)"

text \<open>The body of the loop over the candidate pages, for a page that was fetched.\<close>

definition processPage :: "env \<Rightarrow> nat \<Rightarrow> string \<Rightarrow> dom \<Rightarrow> contactInfo \<Rightarrow> contactInfo \<times> nat" where
  "processPage e n u d info =
     (let (pageEmails, n') = extractEmailsFromPage e n u
      in (\<lparr> emails = foldl setAdd (emails info) pageEmails,
            phones = foldl addPhone (phones info) (matchAll phoneRegex (pageText d)),
            socialMedia = foldl addSocial (socialMedia info) (filter socialSelected (hrefs d)),
            contactForms = foldl (addForm u) (contactForms info) (forms d) \<rparr>, n'))"

fun pagesLoop :: "env \<Rightarrow> nat \<Rightarrow> contactInfo \<Rightarrow> string list \<Rightarrow> contactInfo \<times> nat" where
  "pagesLoop e n info [] = (info, n)"
| "pagesLoop e n info (u # us) =
     (case get e n u of
        Inl err \<Rightarrow> pagesLoop e (Suc n) info us
      | Inr r \<Rightarrow>
          (let (info', n') = processPage e (Suc n) u (load e (data r)) info
           in pagesLoop e n' info' us))"

definition extractContactInfo :: "env \<Rightarrow> nat \<Rightarrow> string \<Rightarrow> contactInfo \<times> nat" where
  "extractContactInfo e n baseUrl =
     pagesLoop e n \<lparr> emails = [], phones = [], socialMedia = Map.empty, contactForms = [] \<rparr>
       (map (\<lambda>page. ensureProtocol baseUrl @ page) commonPages)"

text \<open>The ten patterns of \<open>filterEmails\<close>, every one anchored and with the flag \<open>i\<close>.\<close>

definition word :: "string \<Rightarrow> regex" where
  "word w = seqs (map liti w)"

definition excludePatterns :: "regex list" where
  "excludePatterns =
     [seqs [word ''no'', Opt (liti CHR ''-''), word ''reply''],
      word ''donotreply'',
      word ''noreply'',
      word ''support'',
      word ''help'',
      word ''info@example'',
      word ''test@'',
      word ''admin@example'',
      word ''example@'',
      word ''@example'']"

definition filterEmails :: "string list \<Rightarrow> string list" where
  "filterEmails es = filter (\<lambda>email. \<not> list_ex (\<lambda>pat. testAnchored pat email) excludePatterns) es"

section \<open>PlatformDetector\<close>

datatype confidence = High | Medium | Unknown

record detection =
  isWordPress :: bool
  indicator :: "string option"
  confidence :: confidence

definition indicators :: "string list" where
  "indicators =
     [''/wp-content/'', ''/wp-includes/'', ''/wp-admin/'', ''wp-json'', ''wordpress'',
      ''wp_enqueue_script'', ''wp-embed.min.js'', ''generator.*wordpress'', ''wp-rocket'',
      ''elementor'', ''woocommerce'']"

text \<open>The loop over the indicators: the first one the lower-cased body includes.\<close>

fun firstIndicator :: "string \<Rightarrow> string list \<Rightarrow> string option" where
  "firstIndicator htmlContent [] = None"
| "firstIndicator htmlContent (i # is) =
     (if includesStr htmlContent (toLowerCase i) then Some i
      else firstIndicator htmlContent is)"

definition found :: "string \<Rightarrow> confidence \<Rightarrow> detection" where
  "found i c = \<lparr> isWordPress = True, indicator = Some i, confidence = c \<rparr>"

text \<open>The checks that follow the REST probe: the link tags, then the classes of \<open>body\<close>.\<close>

definition markupChecks :: "dom \<Rightarrow> detection" where
  "markupChecks d =
     (if 0 < length (filter (\<lambda>h. includesStr h ''wp-'') (linkHrefs d))
      then found ''WordPress assets in link tags'' Medium
      else let bodyClasses = (case bodyClass d of None \<Rightarrow> [] | Some c \<Rightarrow> c)
           in if includesStr bodyClasses ''wp-'' \<or> includesStr bodyClasses ''wordpress''
              then found ''WordPress CSS classes'' Medium
              else \<lparr> isWordPress = False, indicator = None, confidence = High \<rparr>)"

definition generatorSaysWordPress :: "dom \<Rightarrow> bool" where
  "generatorSaysWordPress d =
     (case generator d of
        None \<Rightarrow> False
      | Some g \<Rightarrow> g \<noteq> [] \<and> includesStr (toLowerCase g) ''wordpress'')"

text \<open>
  Everything in \<open>isWordPressSite\<close> is inside one \<open>try\<close>, whose \<open>catch\<close> raises
  \<open>Failed to check WordPress status for \<dots>\<close> with the message of what was caught: the
  failure of the request, or the \<open>TypeError\<close> of \<open>html.toLowerCase()\<close> when \<open>response.data\<close>
  is not a string.
\<close>

definition isWordPressSite :: "env \<Rightarrow> nat \<Rightarrow> string \<Rightarrow> (error + detection) \<times> nat" where
  "isWordPressSite e n url0 =
     (let u = ensureProtocol url0
      in case get e n u of
           Inl err \<Rightarrow>
             (Inl (Error (''Failed to check WordPress status for '' @ u @ '': '' @ message err)),
              Suc n)
         | Inr r \<Rightarrow>
             (case notText r of
                Some typeError \<Rightarrow>
                  (Inl (Error (''Failed to check WordPress status for '' @ u @ '': '' @ typeError)),
                   Suc n)
              | None \<Rightarrow>
                  (let html = data r; d = load e html; htmlContent = toLowerCase html
                   in case firstIndicator htmlContent indicators of
                        Some i \<Rightarrow> (Inr (found i High), Suc n)
                      | None \<Rightarrow>
                          if generatorSaysWordPress d
                          then (Inr (found ''meta generator tag'' High), Suc n)
                          else (case get e (Suc n) (u @ ''/wp-json/wp/v2/posts?per_page=1'') of
                                  Inr api \<Rightarrow>
                                    if status api = 200
                                    then (Inr (found ''WordPress REST API'' High), Suc (Suc n))
                                    else (Inr (markupChecks d), Suc (Suc n))
                                | Inl apiError \<Rightarrow> (Inr (markupChecks d), Suc (Suc n))))))"

section \<open>Result records\<close>

text \<open>
  The objects the batch functions and the pipeline pass on have a \<open>url\<close> and an
  \<open>isWordPress\<close>, which is \<open>true\<close>, \<open>false\<close> or the string \<open>'not_validated'\<close>; the other
  properties may be absent (\<open>None\<close>).  The four contact properties \<open>emails\<close>, \<open>phones\<close>,
  \<open>socialMedia\<close> and \<open>contactForms\<close> are present together or not at all.
\<close>

datatype wpFlag = Verdict bool | NotValidated

record site =
  url :: string
  isWordPress :: wpFlag
  indicator :: "string option"
  confidence :: "confidence option"
  contact :: "contactInfo option"
  error :: "string option"
  extractedAt :: "string option"

text \<open>The truth value of \<open>site.isWordPress\<close> in a condition: a non-empty string is true.\<close>

fun truthy :: "wpFlag \<Rightarrow> bool" where
  "truthy (Verdict b) = b"
| "truthy NotValidated = True"

definition siteEmails :: "site \<Rightarrow> string list option" where
  "siteEmails s = map_option emails (contact s)"

fun checkBatchLoop :: "env \<Rightarrow> nat \<Rightarrow> site list \<Rightarrow> string list \<Rightarrow> site list \<times> nat" where
  "checkBatchLoop e n results [] = (results, n)"
| "checkBatchLoop e n results (u # us) =
     (case isWordPressSite e n u of
        (Inr d, n') \<Rightarrow>
          checkBatchLoop e n'
            (results @ [\<lparr> url = u, isWordPress = Verdict (detection.isWordPress d),
                           indicator = detection.indicator d,
                           confidence = Some (detection.confidence d),
                           contact = None, error = None, extractedAt = None \<rparr>]) us
      | (Inl err, n') \<Rightarrow>
          checkBatchLoop e n'
            (results @ [\<lparr> url = u, isWordPress = Verdict False, indicator = None,
                           confidence = Some Unknown, contact = None,
                           error = Some (message err), extractedAt = None \<rparr>]) us)"

definition checkWordPressBatch :: "env \<Rightarrow> nat \<Rightarrow> string list \<Rightarrow> site list \<times> nat" where
  "checkWordPressBatch e n urls = checkBatchLoop e n [] urls"

section \<open>WordPressScraper\<close>

text \<open>
  Of the scraper's options only \<open>onlyWordPress\<close>, \<open>respectful\<close> and \<open>delay\<close> are read.
  \<open>scrapeBatch\<close> merges its own \<open>options\<close> argument over them into \<open>batchOptions\<close>, which
  decides the pause between two sites only; \<open>scrapeWebsite\<close> reads \<open>this.options\<close>.
\<close>

record options =
  onlyWordPress :: bool
  respectful :: bool
  delay :: nat

record batchArgs =
  argOnlyWordPress :: "bool option"
  argDelay :: "nat option"

definition failed :: "env \<Rightarrow> nat \<Rightarrow> string \<Rightarrow> error \<Rightarrow> site" where
  "failed e n u err =
     \<lparr> url = u, isWordPress = Verdict False, indicator = None, confidence = None,
       contact = Some \<lparr> emails = [], phones = [], socialMedia = Map.empty, contactForms = [] \<rparr>,
       error = Some (message err), extractedAt = Some (now e n) \<rparr>"

text \<open>
  \<open>extractFromWordPressSite\<close>: strings as URLs give \<open>extractContactInfo\<close> nothing to raise
  (every request and every parse is inside the loop's own \<open>try\<close>), so its \<open>catch\<close> has no
  branch here.
\<close>

record contactRecord =
  recordUrl :: string
  recordInfo :: contactInfo
  recordExtractedAt :: string

definition extractFromWordPressSite :: "env \<Rightarrow> nat \<Rightarrow> string \<Rightarrow> contactRecord \<times> nat" where
  "extractFromWordPressSite e n u =
     (let (info, n') = extractContactInfo e n u
      in (\<lparr> recordUrl = u,
            recordInfo = info\<lparr> emails := filterEmails (emails info) \<rparr>,
            recordExtractedAt = now e n' \<rparr>, n'))"

text \<open>
  \<open>scrapeWebsite\<close> returns \<open>null\<close> (\<open>None\<close>) for a site it skips, and the record \<open>failed\<close>
  when the detection raised.  It catches whatever is raised inside it, so the \<open>catch\<close> of
  the loop in \<open>scrapeBatch\<close> has no branch.
\<close>

definition scrapeWebsite :: "options \<Rightarrow> env \<Rightarrow> nat \<Rightarrow> string \<Rightarrow> site option \<times> nat" where
  "scrapeWebsite opts e n u =
     (case isWordPressSite e n u of
        (Inl err, n') \<Rightarrow> (Some (failed e n' u err), n')
      | (Inr wpDetection, n') \<Rightarrow>
          if \<not> detection.isWordPress wpDetection \<and> onlyWordPress opts then (None, n')
          else (let (c, n'') = extractFromWordPressSite e n' u
                in (Some \<lparr> url = recordUrl c,
                           isWordPress = Verdict (detection.isWordPress wpDetection),
                           indicator = detection.indicator wpDetection,
                           confidence = Some (detection.confidence wpDetection),
                           contact = Some (recordInfo c),
                           error = None,
                           extractedAt = Some (recordExtractedAt c) \<rparr>,
                    n'')))"

fun scrapeLoop :: "options \<Rightarrow> env \<Rightarrow> nat \<Rightarrow> site list \<Rightarrow> string list \<Rightarrow> site list \<times> nat" where
  "scrapeLoop opts e n results [] = (results, n)"
| "scrapeLoop opts e n results (u # us) =
     (case scrapeWebsite opts e n u of
        (Some result, n') \<Rightarrow> scrapeLoop opts e n' (results @ [result]) us
      | (None, n') \<Rightarrow> scrapeLoop opts e n' results us)"

text \<open>
  \<open>{ ...this.options, ...options }\<close>: a property the argument has replaces the scraper's.
\<close>

definition mergeOptions :: "options \<Rightarrow> batchArgs \<Rightarrow> options" where
  "mergeOptions opts args =
     \<lparr> onlyWordPress = (case argOnlyWordPress args of None \<Rightarrow> onlyWordPress opts | Some b \<Rightarrow> b),
       respectful = respectful opts,
       delay = (case argDelay args of None \<Rightarrow> delay opts | Some ms \<Rightarrow> ms) \<rparr>"

text \<open>
  \<open>scrapeBatch\<close> computes \<open>batchOptions\<close> and reads its \<open>respectful\<close> and \<open>delay\<close> for the pause
  between two sites, which changes no result.  The loop calls \<open>this.scrapeWebsite(url)\<close>,
  which tests \<open>this.options.onlyWordPress\<close>: \<open>batchOptions\<close> is not handed to it.
\<close>

definition scrapeBatch :: "options \<Rightarrow> env \<Rightarrow> nat \<Rightarrow> string list \<Rightarrow> batchArgs \<Rightarrow> site list \<times> nat" where
  "scrapeBatch opts e n urls args =
     (let batchOptions = mergeOptions opts args
      in scrapeLoop opts e n [] urls)"

section \<open>SearchDiscoverer: the validity filter\<close>

definition excludeDomains :: "string list" where
  "excludeDomains =
     [''google.com'', ''youtube.com'', ''facebook.com'', ''twitter.com'', ''linkedin.com'',
      ''instagram.com'', ''pinterest.com'', ''reddit.com'', ''wikipedia.org'', ''amazon.com'',
      ''ebay.com'', ''craigslist.org'']"

definition isValidUrl :: "env \<Rightarrow> string \<Rightarrow> bool" where
  "isValidUrl e u =
     (case newURL e u of
        None \<Rightarrow> False
      | Some urlObj \<Rightarrow>
          (let host = toLowerCase (hostname urlObj);
               isExcluded = list_ex (\<lambda>domain. includesStr host domain \<or> endsWith host domain)
                              excludeDomains
           in \<not> isExcluded \<and> startsWith (protocol urlObj) ''http'' \<and> includesStr host ''.'' \<and>
              \<not> includesStr host ''localhost''))"

definition extractDomains :: "env \<Rightarrow> searchResult list \<Rightarrow> string list" where
  "extractDomains e results =
     map (\<lambda>r. case newURL e (searchResult.url r) of
                 Some u \<Rightarrow> hostname u
               | None \<Rightarrow> searchResult.url r) results"

section \<open>Numbers\<close>

text \<open>
  A number of the language is an IEEE 754 double.  The summary divides and multiplies
  counts, which are non-negative integers, so the values that occur are non-negative
  rationals, and each operation returns the double nearest to the exact result, ties going
  to the even significand: \<open>fl\<close>.  The exponent range of the format is left out: no
  quotient or product of counts below \<open>2^53\<close> (a list of the language is shorter than
  \<open>2^32\<close>) overflows or is subnormal.
\<close>

definition ilog2 :: "rat \<Rightarrow> int" where
  "ilog2 x =
     (let (p, q) = quotient_of x; e0 = bitlen p - bitlen q
      in if 2 powi e0 \<le> x then e0 else e0 - 1)"

definition roundEven :: "rat \<Rightarrow> int" where
  "roundEven m =
     (let f = \<lfloor>m\<rfloor>; d = m - of_int f
      in if d < 1 / 2 then f else if 1 / 2 < d then f + 1 else if even f then f else f + 1)"

definition fl :: "rat \<Rightarrow> rat" where
  "fl x =
     (if x \<le> 0 then 0
      else let ulp = 2 powi (ilog2 x - 52) in of_int (roundEven (x / ulp)) * ulp)"

definition digitChar :: "nat \<Rightarrow> char" where
  "digitChar d = char_of (48 + d)"

fun showNat :: "nat \<Rightarrow> string" where
  "showNat n = (if n < 10 then [digitChar n] else showNat (n div 10) @ [digitChar (n mod 10)])"

text \<open>
  \<open>x.toFixed(1)\<close> for \<open>0 \<le> x < 10^21\<close>: with \<open>n\<close> the integer for which \<open>n / 10 - x\<close> is
  closest to zero (the larger one of two), the digits of \<open>n\<close>, padded to two, with a point
  before the last.
\<close>

definition toFixed1 :: "rat \<Rightarrow> string" where
  "toFixed1 x =
     (let n = nat \<lfloor>x * 10 + 1 / 2\<rfloor>;
          m = (if n < 10 then ''0'' @ showNat n else showNat n)
      in butlast m @ ''.'' @ [last m])"

datatype jsValue = Num rat | Str string

section \<open>ProspectingPipeline\<close>

record summary =
  totalSearchResults :: nat
  sitesValidated :: nat
  confirmedWordPressSites :: nat
  sitesWithContactInfo :: nat
  totalEmails :: nat
  wordpressDetectionRate :: jsValue
  avgEmailsPerSite :: jsValue
  uniqueEmails :: nat

record pipeline =
  searchResults :: "searchResult list"
  wordpressSites :: "site list"
  contactData :: "site list"
  summary :: "summary option"

definition hasEmails :: "site \<Rightarrow> bool" where
  "hasEmails s = (case siteEmails s of None \<Rightarrow> False | Some es \<Rightarrow> 0 < length es)"

definition emailCount :: "site \<Rightarrow> nat" where
  "emailCount s = (case siteEmails s of None \<Rightarrow> 0 | Some es \<Rightarrow> length es)"

definition allEmails :: "site list \<Rightarrow> string list" where
  "allEmails sites =
     foldl (\<lambda>acc s. case siteEmails s of None \<Rightarrow> acc | Some es \<Rightarrow> foldl setAdd acc es) [] sites"

definition generateSummary :: "pipeline \<Rightarrow> summary" where
  "generateSummary p =
     (let total = length (searchResults p);
          validated = length (wordpressSites p);
          confirmed = length (filter (\<lambda>s. isWordPress s = Verdict True) (wordpressSites p));
          withContact = length (filter hasEmails (contactData p));
          mails = foldl (\<lambda>sum s. sum + emailCount s) 0 (contactData p)
      in \<lparr> totalSearchResults = total,
            sitesValidated = validated,
            confirmedWordPressSites = confirmed,
            sitesWithContactInfo = withContact,
            totalEmails = mails,
            wordpressDetectionRate =
              (if 0 < validated
               then Str (toFixed1 (fl (fl (of_nat confirmed / of_nat validated) * 100)))
               else Num 0),
            avgEmailsPerSite =
              (if 0 < withContact
               then Str (toFixed1 (fl (of_nat mails / of_nat withContact)))
               else Num 0),
            uniqueEmails = length (allEmails (contactData p)) \<rparr>)"

record prospectorOptions =
  maxSearchResults :: nat
  validateWordPress :: bool
  extractEmails :: bool

text \<open>
  \<open>findAndScrapeWordPressSites\<close> after its first step: \<open>results\<close> is what
  \<open>searcher.findWordPressSites\<close> returned, \<open>n\<close> the number of requests made by then.
  The scraper's two batches never raise, so the \<open>catch\<close> of the pipeline has no branch.
\<close>

definition notValidated :: "string \<Rightarrow> site" where
  "notValidated u =
     \<lparr> url = u, isWordPress = NotValidated, indicator = None, confidence = None,
       contact = None, error = None, extractedAt = None \<rparr>"

definition findAndScrapeWordPressSites ::
  "prospectorOptions \<Rightarrow> options \<Rightarrow> env \<Rightarrow> nat \<Rightarrow> searchResult list \<Rightarrow> pipeline \<times> nat" where
  "findAndScrapeWordPressSites po so e n results =
     (if results = []
      then (\<lparr> searchResults = results, wordpressSites = [], contactData = [], summary = None \<rparr>, n)
      else
        let urls = extractDomains e results;
            (sites, validatedSites, n1) =
              (if validateWordPress po
               then let (wordpressDetection, n') =
                          scrapeBatch so e n urls
                            \<lparr> argOnlyWordPress = Some False, argDelay = Some 1500 \<rparr>;
                        confirmed = filter (\<lambda>s. truthy (isWordPress s)) wordpressDetection
                    in (confirmed, map url confirmed, n')
               else (map notValidated urls, urls, n));
            (contacts, n2) =
              (if extractEmails po \<and> 0 < length validatedSites
               then scrapeBatch so e n1 validatedSites
                      \<lparr> argOnlyWordPress = Some False, argDelay = Some 2000 \<rparr>
               else ([], n1));
            p = \<lparr> searchResults = results, wordpressSites = sites, contactData = contacts,
                  summary = None \<rparr>
        in (p\<lparr> summary := Some (generateSummary p) \<rparr>, n2))"

section \<open>ReportExporter: the rows of the tabular export\<close>

record csvRow =
  csvUrl :: string
  csvEmail :: string
  csvPhones :: string
  csvFacebook :: string
  csvTwitter :: string
  csvLinkedin :: string
  csvInstagram :: string
  hasContactForm :: string
  wordpressDetected :: string
  detectionMethod :: string
  csvExtractedAt :: string

fun join :: "string \<Rightarrow> string list \<Rightarrow> string" where
  "join sep [] = []"
| "join sep [x] = x"
| "join sep (x # xs) = x @ sep @ join sep xs"

definition orEmpty :: "string option \<Rightarrow> string" where
  "orEmpty v = (case v of None \<Rightarrow> [] | Some s \<Rightarrow> s)"

definition socialOf :: "site \<Rightarrow> platform \<Rightarrow> string" where
  "socialOf s pf = (case contact s of None \<Rightarrow> [] | Some c \<Rightarrow> orEmpty (socialMedia c pf))"

definition rowFor :: "site \<Rightarrow> string \<Rightarrow> csvRow" where
  "rowFor s email =
     \<lparr> csvUrl = url s,
       csvEmail = email,
       csvPhones = (case contact s of None \<Rightarrow> [] | Some c \<Rightarrow> join ''; '' (phones c)),
       csvFacebook = socialOf s Facebook,
       csvTwitter = socialOf s Twitter,
       csvLinkedin = socialOf s Linkedin,
       csvInstagram = socialOf s Instagram,
       hasContactForm =
         (case contact s of
            None \<Rightarrow> ''No''
          | Some c \<Rightarrow> if 0 < length (contactForms c) then ''Yes'' else ''No''),
       wordpressDetected = (if truthy (isWordPress s) then ''Yes'' else ''No''),
       detectionMethod = orEmpty (indicator s),
       csvExtractedAt = orEmpty (extractedAt s) \<rparr>"

definition rowsOf :: "site \<Rightarrow> csvRow list" where
  "rowsOf s =
     (case siteEmails s of
        None \<Rightarrow> [rowFor s []]
      | Some es \<Rightarrow> if 0 < length es then map (rowFor s) es else [rowFor s []])"

definition exportToCSV :: "site list \<Rightarrow> csvRow list" where
  "exportToCSV sites = concat (map rowsOf sites)"

text \<open>
  \<open>exportResults\<close> hands \<open>pipeline.contactData\<close>, when it is not empty, to the exporter;
  these are the rows of the tabular file it writes.
\<close>

definition exportedRows :: "pipeline \<Rightarrow> csvRow list" where
  "exportedRows p = (if 0 < length (contactData p) then exportToCSV (contactData p) else [])"

text \<open>The record \<open>checkWordPressBatch\<close> pushes for a URL, from the outcome of its detection.\<close>

definition batchRecord :: "string \<Rightarrow> error + detection \<Rightarrow> site" where
  "batchRecord u r =
     (case r of
        Inr d \<Rightarrow> \<lparr> url = u, isWordPress = Verdict (detection.isWordPress d),
                    indicator = detection.indicator d,
                    confidence = Some (detection.confidence d),
                    contact = None, error = None, extractedAt = None \<rparr>
      | Inl err \<Rightarrow> \<lparr> url = u, isWordPress = Verdict False, indicator = None,
                      confidence = Some Unknown, contact = None,
                      error = Some (message err), extractedAt = None \<rparr>)"

definition keepAll :: options where
  "keepAll = \<lparr> onlyWordPress = False, respectful = True, delay = 1000 \<rparr>"

definition wpOnly :: options where
  "wpOnly = \<lparr> onlyWordPress = True, respectful = True, delay = 1000 \<rparr>"

definition argsKeepAll :: batchArgs where
  "argsKeepAll = \<lparr> argOnlyWordPress = Some False, argDelay = Some 1500 \<rparr>"

definition argsWpOnly :: batchArgs where
  "argsWpOnly = \<lparr> argOnlyWordPress = Some True, argDelay = None \<rparr>"

section \<open>Sample worlds\<close>

text \<open>Concrete documents and networks, for the instances of the theorems below.\<close>

definition emptyDom :: dom where
  "emptyDom =
     \<lparr> pageText = [], generator = None, linkHrefs = [], bodyClass = None, hrefs = [],
       dataEmails = [], forms = [] \<rparr>"

definition wpBody :: string where
  "wpBody = ''<img src=/WP-Content/logo.png>''"

definition plainBody :: string where
  "plainBody = ''<p>hello</p>''"

text \<open>
  \<open>sampleEnv\<close>: the hosts \<open>wp.test\<close> and \<open>plain.test\<close> answer their front page, with and
  without an indicator in the body; every other request fails.
\<close>

definition sampleEnv :: env where
  "sampleEnv =
     \<lparr> get = (\<lambda>n u. if u = ''https://wp.test'' then Inr \<lparr> status = 200, data = wpBody, notText = None \<rparr>
                     else if u = ''https://plain.test'' then Inr \<lparr> status = 200, data = plainBody, notText = None \<rparr>
                     else Inl (Error ''timeout'')),
       load = (\<lambda>html. emptyDom),
       isEmail = (\<lambda>s. True),
       newURL = (\<lambda>s. None),
       now = (\<lambda>n. ''2024-01-01T00:00:00.000Z'') \<rparr>"

text \<open>
  \<open>urlEnv\<close>: a parser that knows three addresses, with the parts the \<open>URL\<close> constructor
  gives them.
\<close>

definition urlEnv :: env where
  "urlEnv =
     \<lparr> get = (\<lambda>n u. Inl (Error ''timeout'')),
       load = (\<lambda>html. emptyDom),
       isEmail = (\<lambda>s. True),
       newURL = (\<lambda>s.
          if s = ''https://blog.acme.io/news''
          then Some \<lparr> protocol = ''https:'', hostname = ''blog.acme.io'', pathname = ''/news'' \<rparr>
          else if s = ''httpx://shop.acme.io/a''
          then Some \<lparr> protocol = ''httpx:'', hostname = ''shop.acme.io'', pathname = ''/a'' \<rparr>
          else if s = ''http://mylocalhost.net/''
          then Some \<lparr> protocol = ''http:'', hostname = ''mylocalhost.net'', pathname = ''/'' \<rparr>
          else None),
       now = (\<lambda>n. ''2024-01-01T00:00:00.000Z'') \<rparr>"

text \<open>
  \<open>mailEnv\<close>: the front page of \<open>acme.test\<close> holds one link,
  \<open>mailto:user@example.com\<close>; the other candidate pages do not exist.
\<close>

definition mailEnv :: env where
  "mailEnv =
     \<lparr> get = (\<lambda>n u. if u = ''https://acme.test''
                     then Inr \<lparr> status = 200, data = ''<a href=mailto:user@example.com>write</a>'', notText = None \<rparr>
                     else Inl (Error ''Request failed with status code 404'')),
       load = (\<lambda>html. emptyDom \<lparr> pageText := ''write'', hrefs := [''mailto:user@example.com''] \<rparr>),
       isEmail = (\<lambda>s. s = ''user@example.com''),
       newURL = (\<lambda>s. None),
       now = (\<lambda>n. ''2024-01-01T00:00:00.000Z'') \<rparr>"

text \<open>
  \<open>phoneEnv\<close>: the front page of \<open>acme.test\<close> has the text \<open>+123456\<close>; the other candidate
  pages do not exist.
\<close>

definition phoneEnv :: env where
  "phoneEnv =
     \<lparr> get = (\<lambda>n u. if u = ''https://acme.test''
                     then Inr \<lparr> status = 200, data = ''<p>+123456</p>'', notText = None \<rparr>
                     else Inl (Error ''Request failed with status code 404'')),
       load = (\<lambda>html. emptyDom \<lparr> pageText := ''+123456'' \<rparr>),
       isEmail = (\<lambda>s. False),
       newURL = (\<lambda>s. None),
       now = (\<lambda>n. ''2024-01-01T00:00:00.000Z'') \<rparr>"

text \<open>
  The anchors that the loop of \<open>extractContactInfo\<close> files, over the candidate pages that
  are fetched, in the order of the crawl and within a page in document order.  A page that
  is fetched costs two requests (its own and that of \<open>extractEmailsFromPage\<close>), one that
  fails costs one.
\<close>

fun socialAnchors :: "env \<Rightarrow> nat \<Rightarrow> string list \<Rightarrow> string list" where
  "socialAnchors e n [] = []"
| "socialAnchors e n (u # us) =
     (case get e n u of
        Inl err \<Rightarrow> socialAnchors e (Suc n) us
      | Inr r \<Rightarrow> filter socialSelected (hrefs (load e (data r))) @ socialAnchors e (Suc (Suc n)) us)"

text \<open>
  \<open>socialEnv\<close>: the front page of \<open>acme.test\<close> has two Twitter anchors, the second a share
  link that names Facebook, and two Facebook anchors; its \<open>/contact\<close> page has one more
  Facebook anchor; the other candidate pages do not exist.
\<close>

definition frontHrefs :: "string list" where
  "frontHrefs =
     [''https://twitter.com/acme'', ''https://twitter.com/share?via=facebook'', ''/pricing'',
      ''https://facebook.com/acme'', ''https://facebook.com/acme.shop'']"

definition socialEnv :: env where
  "socialEnv =
     \<lparr> get = (\<lambda>n u. if u = ''https://acme.test'' then Inr \<lparr> status = 200, data = ''front'', notText = None \<rparr>
                     else if u = ''https://acme.test/contact'' then Inr \<lparr> status = 200, data = ''contact'', notText = None \<rparr>
                     else Inl (Error ''Request failed with status code 404'')),
       load = (\<lambda>html.
          if html = ''front'' then emptyDom \<lparr> hrefs := frontHrefs \<rparr>
          else emptyDom \<lparr> hrefs := [''https://www.facebook.com/sharer.php?u=acme.test''] \<rparr>),
       isEmail = (\<lambda>s. False),
       newURL = (\<lambda>s. None),
       now = (\<lambda>n. ''2024-01-01T00:00:00.000Z'') \<rparr>"

text \<open>\<open>onePageEnv\<close>: only the front page exists, with the two Facebook anchors.\<close>

definition onePageEnv :: env where
  "onePageEnv =
     \<lparr> get = (\<lambda>n u. if u = ''https://acme.test'' then Inr \<lparr> status = 200, data = ''front'', notText = None \<rparr>
                     else Inl (Error ''Request failed with status code 404'')),
       load = (\<lambda>html. emptyDom \<lparr> hrefs := [''https://facebook.com/acme'', ''/pricing'',
                                             ''https://facebook.com/acme.shop''] \<rparr>),
       isEmail = (\<lambda>s. False),
       newURL = (\<lambda>s. None),
       now = (\<lambda>n. ''2024-01-01T00:00:00.000Z'') \<rparr>"

definition skipValidate :: prospectorOptions where
  "skipValidate = \<lparr> maxSearchResults = 100, validateWordPress = False, extractEmails = True \<rparr>"

definition sampleResults :: "searchResult list" where
  "sampleResults =
     [\<lparr> searchResult.url = ''wp.test'', title = ''A shop'', description = ''No description'',
        source = ''google_search'' \<rparr>,
      \<lparr> searchResult.url = ''plain.test'', title = ''A page'', description = ''No description'',
        source = ''google_search'' \<rparr>]"

text \<open>
  \<open>oneOfThree\<close>: three validated sites, one of them confirmed.  \<open>noSites\<close>: none validated.
\<close>

definition verdictSite :: "string \<Rightarrow> bool \<Rightarrow> site" where
  "verdictSite u b =
     \<lparr> url = u, isWordPress = Verdict b, indicator = None, confidence = Some High,
       contact = None, error = None, extractedAt = None \<rparr>"

definition oneOfThree :: pipeline where
  "oneOfThree =
     \<lparr> searchResults = [],
       wordpressSites = [verdictSite ''a.test'' True, verdictSite ''b.test'' False,
                         verdictSite ''c.test'' False],
       contactData = [], summary = None \<rparr>"

definition noSites :: pipeline where
  "noSites = \<lparr> searchResults = [], wordpressSites = [], contactData = [], summary = None \<rparr>"




section \<open>Properties of deduplication\<close>

lemma dedupFrom_keys_fresh:
  "toLowerCase (searchResult.url r) \<in> seen \<Longrightarrow> r \<notin> set (dedupFrom seen rs)"
  by (induction rs arbitrary: seen) (auto simp: Let_def)

lemma dedupFrom_fixed:
  "dedupFrom seen (dedupFrom seen rs) = dedupFrom seen rs"
proof (induction rs arbitrary: seen)
  case Nil
  show ?case by simp
next
  case (Cons r rs)
  show ?case
  proof (cases "toLowerCase (searchResult.url r) \<in> seen")
    case True
    with Cons show ?thesis by simp
  next
    case False
    with Cons [of "insert (toLowerCase (searchResult.url r)) seen"] show ?thesis
      by (simp add: Let_def)
  qed
qed

lemma dedupFrom_distinct_keys:
  "distinct (map (\<lambda>r. toLowerCase (searchResult.url r)) (dedupFrom seen rs))"
proof (induction rs arbitrary: seen)
  case Nil
  show ?case by simp
next
  case (Cons r rs)
  have "toLowerCase (searchResult.url r) \<notin> (\<lambda>r. toLowerCase (searchResult.url r)) ` set (dedupFrom (insert (toLowerCase (searchResult.url r)) seen) rs)"
    using dedupFrom_keys_fresh [of _ "insert (toLowerCase (searchResult.url r)) seen" rs] by auto
  with Cons show ?case by (simp add: Let_def)
qed

lemma dedupFrom_snoc:
  "dedupFrom seen (rs @ [r]) =
     (if toLowerCase (searchResult.url r)
           \<in> seen \<union> (\<lambda>x. toLowerCase (searchResult.url x)) ` set rs
      then dedupFrom seen rs else dedupFrom seen rs @ [r])"
  by (induction rs arbitrary: seen) (auto simp: Let_def)

text \<open>
  C6.  Deduplication is idempotent: on every sequence of search results a second
  \<open>deduplicateResults\<close> returns what the first one returned.  That sequence holds no two
  results whose URLs agree up to letter case, and the first occurrence is the one kept: a
  result is dropped exactly when an earlier one has the same lower-cased URL.
\<close>

theorem deduplicateResults_idempotent:
  "deduplicateResults (deduplicateResults results) = deduplicateResults results
   \<and> distinct (map (\<lambda>r. toLowerCase (searchResult.url r)) (deduplicateResults results))
   \<and> deduplicateResults (results @ [r]) =
       (if toLowerCase (searchResult.url r)
             \<in> (\<lambda>x. toLowerCase (searchResult.url x)) ` set results
        then deduplicateResults results else deduplicateResults results @ [r])"
  by (simp add: deduplicateResults_def dedupFrom_fixed dedupFrom_distinct_keys dedupFrom_snoc)

section \<open>Properties of the string functions\<close>

lemma startsWith_prefix: "startsWith s p \<longleftrightarrow> prefix p s"
  unfolding startsWith_def by (metis prefix_def append_eq_conv_conj take_is_prefix)

lemma includesStr_sublist: "includesStr s p \<longleftrightarrow> sublist p s"
  by (induction s) (auto simp: startsWith_prefix sublist_Cons_right)

lemma endsWith_suffix: "endsWith s p \<longleftrightarrow> suffix p s"
  unfolding endsWith_def
  by (metis suffix_def append_eq_conv_conj length_append add_diff_cancel_right' le_add2 append_take_drop_id)

section \<open>Properties of detection\<close>








lemma lower_plainBody: "toLowerCase plainBody = ''<p>hello</p>''"
  by code_simp


lemma isWordPressSite_notText:
  assumes "get e n (ensureProtocol u) = Inr r" and "notText r = Some typeError"
  shows "isWordPressSite e n u =
     (Inl (Error (''Failed to check WordPress status for '' @ ensureProtocol u @ '': '' @ typeError)),
      Suc n)"
  using assms by (simp add: isWordPressSite_def Let_def)


section \<open>Properties of batch detection\<close>

lemma checkBatchLoop_step:
  "checkBatchLoop e n acc (u # us) =
     checkBatchLoop e (snd (isWordPressSite e n u))
       (acc @ [batchRecord u (fst (isWordPressSite e n u))]) us"
  by (cases "isWordPressSite e n u") (auto simp: batchRecord_def split: sum.splits)

lemma checkBatchLoop_shape:
  "\<exists>rs. fst (checkBatchLoop e n acc us) = acc @ rs \<and> length rs = length us \<and>
        (\<forall>i < length us. \<exists>m. rs ! i = batchRecord (us ! i) (fst (isWordPressSite e m (us ! i))))"
proof (induction us arbitrary: n acc)
  case Nil
  show ?case by simp
next
  case (Cons u us)
  let ?r = "batchRecord u (fst (isWordPressSite e n u))"
  from Cons [of "snd (isWordPressSite e n u)" "acc @ [?r]"]
  obtain rs where rs: "fst (checkBatchLoop e (snd (isWordPressSite e n u)) (acc @ [?r]) us) = (acc @ [?r]) @ rs"
    "length rs = length us"
    "\<forall>i < length us. \<exists>m. rs ! i = batchRecord (us ! i) (fst (isWordPressSite e m (us ! i)))"
    by blast
  have "\<forall>i < length (u # us). \<exists>m. (?r # rs) ! i = batchRecord ((u # us) ! i) (fst (isWordPressSite e m ((u # us) ! i)))"
  proof (intro allI impI)
    fix i assume "i < length (u # us)"
    then show "\<exists>m. (?r # rs) ! i = batchRecord ((u # us) ! i) (fst (isWordPressSite e m ((u # us) ! i)))"
      using rs(3) by (cases i) auto
  qed
  with rs(1,2) show ?case
    unfolding checkBatchLoop_step by (intro exI [of _ "?r # rs"]) simp
qed

lemma url_batchRecord: "url (batchRecord u r) = u"
  by (simp add: batchRecord_def split: sum.splits)

text \<open>
  C4.  \<open>checkWordPressBatch\<close> returns, for every list of URLs, one record per URL in the
  order of the list (it has no outcome but that list: nothing is raised).  Each record is
  that of a detection of its URL: the verdict when the detection returned, and when it
  raised a record with \<open>isWordPress = false\<close>, confidence \<open>unknown\<close> and the message of the
  error.
\<close>

theorem checkWordPressBatch_total:
  "length (fst (checkWordPressBatch e n urls)) = length urls
   \<and> map url (fst (checkWordPressBatch e n urls)) = urls
   \<and> (\<forall>i < length urls. \<exists>m.
        case fst (isWordPressSite e m (urls ! i)) of
          Inl err \<Rightarrow>
            fst (checkWordPressBatch e n urls) ! i =
              \<lparr> url = urls ! i, isWordPress = Verdict False, indicator = None,
                confidence = Some Unknown, contact = None, error = Some (message err),
                extractedAt = None \<rparr>
        | Inr d \<Rightarrow>
            fst (checkWordPressBatch e n urls) ! i =
              \<lparr> url = urls ! i, isWordPress = Verdict (detection.isWordPress d),
                indicator = detection.indicator d, confidence = Some (detection.confidence d),
                contact = None, error = None, extractedAt = None \<rparr>)"
proof -
  from checkBatchLoop_shape [of e n "[]" urls]
  obtain rs where rs: "fst (checkWordPressBatch e n urls) = rs" "length rs = length urls"
    "\<forall>i < length urls. \<exists>m. rs ! i = batchRecord (urls ! i) (fst (isWordPressSite e m (urls ! i)))"
    by (auto simp: checkWordPressBatch_def)
  have "map url rs = urls"
    using rs(2,3) by (auto simp: list_eq_iff_nth_eq url_batchRecord)
  moreover have "\<forall>i < length urls. \<exists>m.
        case fst (isWordPressSite e m (urls ! i)) of
          Inl err \<Rightarrow>
            rs ! i =
              \<lparr> url = urls ! i, isWordPress = Verdict False, indicator = None,
                confidence = Some Unknown, contact = None, error = Some (message err),
                extractedAt = None \<rparr>
        | Inr d \<Rightarrow>
            rs ! i =
              \<lparr> url = urls ! i, isWordPress = Verdict (detection.isWordPress d),
                indicator = detection.indicator d, confidence = Some (detection.confidence d),
                contact = None, error = None, extractedAt = None \<rparr>"
  proof (intro allI impI)
    fix i assume "i < length urls"
    with rs(3) obtain m where "rs ! i = batchRecord (urls ! i) (fst (isWordPressSite e m (urls ! i)))"
      by blast
    then show "\<exists>m.
        case fst (isWordPressSite e m (urls ! i)) of
          Inl err \<Rightarrow>
            rs ! i =
              \<lparr> url = urls ! i, isWordPress = Verdict False, indicator = None,
                confidence = Some Unknown, contact = None, error = Some (message err),
                extractedAt = None \<rparr>
        | Inr d \<Rightarrow>
            rs ! i =
              \<lparr> url = urls ! i, isWordPress = Verdict (detection.isWordPress d),
                indicator = detection.indicator d, confidence = Some (detection.confidence d),
                contact = None, error = None, extractedAt = None \<rparr>"
      by (intro exI [of _ m]) (simp add: batchRecord_def split: sum.splits)
  qed
  ultimately show ?thesis unfolding rs(1) using rs(2) by blast
qed

lemma sample_down:
  "isWordPressSite sampleEnv m ''down.test'' =
     (Inl (Error ''Failed to check WordPress status for https://down.test: timeout''), Suc m)"
  by (simp add: isWordPressSite_def sampleEnv_def ensureProtocol_def startsWith_def)

theorem checkWordPressBatch_total_witness:
  "length (fst (checkWordPressBatch sampleEnv 0 [''wp.test'', ''down.test'', ''plain.test''])) = 3
   \<and> map url (fst (checkWordPressBatch sampleEnv 0 [''wp.test'', ''down.test'', ''plain.test'']))
       = [''wp.test'', ''down.test'', ''plain.test'']
   \<and> fst (checkWordPressBatch sampleEnv 0 [''wp.test'', ''down.test'', ''plain.test'']) ! 1 =
        \<lparr> url = ''down.test'', isWordPress = Verdict False, indicator = None,
          confidence = Some Unknown, contact = None,
          error = Some ''Failed to check WordPress status for https://down.test: timeout'',
          extractedAt = None \<rparr>"
proof -
  let ?urls = "[''wp.test'', ''down.test'', ''plain.test'']"
  note t = checkWordPressBatch_total [of sampleEnv 0 ?urls]
  from t have "\<exists>m. case fst (isWordPressSite sampleEnv m (?urls ! 1)) of
          Inl err \<Rightarrow>
            fst (checkWordPressBatch sampleEnv 0 ?urls) ! 1 =
              \<lparr> url = ?urls ! 1, isWordPress = Verdict False, indicator = None,
                confidence = Some Unknown, contact = None, error = Some (message err),
                extractedAt = None \<rparr>
        | Inr d \<Rightarrow>
            fst (checkWordPressBatch sampleEnv 0 ?urls) ! 1 =
              \<lparr> url = ?urls ! 1, isWordPress = Verdict (detection.isWordPress d),
                indicator = detection.indicator d, confidence = Some (detection.confidence d),
                contact = None, error = None, extractedAt = None \<rparr>"
    by (elim conjE allE [of _ 1]) simp
  then have "fst (checkWordPressBatch sampleEnv 0 ?urls) ! 1 =
        \<lparr> url = ''down.test'', isWordPress = Verdict False, indicator = None,
          confidence = Some Unknown, contact = None,
          error = Some ''Failed to check WordPress status for https://down.test: timeout'',
          extractedAt = None \<rparr>"
    by (simp add: sample_down)
  with t show ?thesis by simp
qed

section \<open>Properties of the scraper's batch\<close>

lemma scrapeWebsite_url:
  "fst (scrapeWebsite opts e n u) = Some r \<Longrightarrow> url r = u"
  by (auto simp: scrapeWebsite_def failed_def extractFromWordPressSite_def Let_def
      split: prod.splits sum.splits if_splits)

lemma scrapeWebsite_all:
  "\<not> onlyWordPress opts \<Longrightarrow> fst (scrapeWebsite opts e n u) \<noteq> None"
  by (auto simp: scrapeWebsite_def Let_def split: prod.splits sum.splits)

lemma scrapeWebsite_skip:
  assumes "onlyWordPress opts" and "isWordPressSite e n u = (Inr d, n')"
    and "\<not> detection.isWordPress d"
  shows "scrapeWebsite opts e n u = (None, n')"
  using assms by (simp add: scrapeWebsite_def)

lemma scrapeLoop_urls:
  "\<not> onlyWordPress opts \<Longrightarrow>
     map url (fst (scrapeLoop opts e n acc us)) = map url acc @ us"
proof (induction us arbitrary: n acc)
  case Nil
  show ?case by simp
next
  case (Cons u us)
  obtain r n' where r: "scrapeWebsite opts e n u = (Some r, n')"
    using scrapeWebsite_all [OF Cons.prems, of e n u]
    by (cases "scrapeWebsite opts e n u") auto
  then have "url r = u" using scrapeWebsite_url [of opts e n u r] by simp
  with Cons.IH [OF Cons.prems, of n' "acc @ [r]"] r show ?case by simp
qed

lemma scrapeLoop_subseq:
  "\<exists>rs. fst (scrapeLoop opts e n acc us) = acc @ rs \<and> subseq (map url rs) us"
proof (induction us arbitrary: n acc)
  case Nil
  show ?case by simp
next
  case (Cons u us)
  show ?case
  proof (cases "scrapeWebsite opts e n u")
    case (Pair res n')
    show ?thesis
    proof (cases res)
      case None
      from Cons [of n' acc] obtain rs where
        "fst (scrapeLoop opts e n' acc us) = acc @ rs" "subseq (map url rs) us" by blast
      with Pair None show ?thesis by (intro exI [of _ rs]) (simp add: list_emb_Cons)
    next
      case (Some r)
      with Pair have u: "url r = u" using scrapeWebsite_url [of opts e n u r] by simp
      from Cons [of n' "acc @ [r]"] obtain rs where
        "fst (scrapeLoop opts e n' (acc @ [r]) us) = (acc @ [r]) @ rs" "subseq (map url rs) us"
        by blast
      with Pair Some u show ?thesis by (intro exI [of _ "r # rs"]) simp
    qed
  qed
qed

lemma scrapeBatch_args_unused:
  "scrapeBatch opts e n urls args = scrapeBatch opts e n urls args'"
  by (simp add: scrapeBatch_def)

text \<open>
  What decides is the option the scraper was made with: off, the batch has one record
  per URL, in order; in every case its URLs are a subsequence of the input.
\<close>

lemma scrapeBatch_by_scraper_option:
  "(\<not> onlyWordPress opts \<longrightarrow>
      length (fst (scrapeBatch opts e n urls args)) = length urls
      \<and> map url (fst (scrapeBatch opts e n urls args)) = urls)
   \<and> subseq (map url (fst (scrapeBatch opts e n urls args))) urls"
proof (intro conjI impI)
  assume a: "\<not> onlyWordPress opts"
  from scrapeLoop_urls [OF a, of e n "[]" urls]
  show m: "map url (fst (scrapeBatch opts e n urls args)) = urls"
    by (simp add: scrapeBatch_def)
  show "length (fst (scrapeBatch opts e n urls args)) = length urls"
    using arg_cong [OF m, of length] by simp
next
  from scrapeLoop_subseq [of opts e n "[]" urls]
  show "subseq (map url (fst (scrapeBatch opts e n urls args))) urls"
    by (auto simp: scrapeBatch_def)
qed

text \<open>
  C10 says what \<open>scrapeBatch\<close> returns with the option \<open>onlyWordPress\<close> off and on.  The
  option \<open>scrapeBatch\<close> is called with has no effect.  On a scraper made with the option
  on, the call with \<open>onlyWordPress: false\<close> (\<open>batchOptions\<close> says off) still drops
  \<open>plain.test\<close>, whose page has no indicator: two URLs, one record.  On a scraper made with
  the option off, the call with \<open>onlyWordPress: true\<close> (\<open>batchOptions\<close> says on) still keeps
  it.
\<close>

theorem scrapeBatch_ignores_call_option:
  "\<not> onlyWordPress (mergeOptions wpOnly argsKeepAll)
   \<and> map url (fst (scrapeBatch wpOnly sampleEnv 0 [''wp.test'', ''plain.test''] argsKeepAll))
       = [''wp.test'']
   \<and> onlyWordPress (mergeOptions keepAll argsWpOnly)
   \<and> map url (fst (scrapeBatch keepAll sampleEnv 0 [''wp.test'', ''plain.test''] argsWpOnly))
       = [''wp.test'', ''plain.test'']
   \<and> map isWordPress (fst (scrapeBatch keepAll sampleEnv 0 [''wp.test'', ''plain.test''] argsWpOnly))
       = [Verdict True, Verdict False]"
  by code_simp

section \<open>Properties of the validity filter\<close>

lemma sublist_single: "sublist [c] xs \<longleftrightarrow> c \<in> set xs"
  by (induction xs) (auto simp: sublist_Cons_right)

lemma suffix_sublist: "suffix p s \<Longrightarrow> sublist p s"
  by (auto simp: suffix_def sublist_def intro: exI [of _ "[]"])

text \<open>
  C7, as the code has it.  \<open>isValidUrl\<close> accepts a URL exactly when the URL parses, its
  protocol begins with \<open>http\<close>, and its lower-cased host contains a dot, does not contain
  \<open>localhost\<close> and contains no entry of the exclusion list (an entry the host ends with is
  one it contains).
\<close>

theorem isValidUrl_accepts:
  "isValidUrl e u \<longleftrightarrow>
     (\<exists>urlObj. newURL e u = Some urlObj
        \<and> prefix ''http'' (protocol urlObj)
        \<and> CHR ''.'' \<in> set (toLowerCase (hostname urlObj))
        \<and> \<not> sublist ''localhost'' (toLowerCase (hostname urlObj))
        \<and> (\<forall>domain \<in> set excludeDomains. \<not> sublist domain (toLowerCase (hostname urlObj))))"
proof (cases "newURL e u")
  case None
  then show ?thesis by (simp add: isValidUrl_def)
next
  case (Some urlObj)
  have ex: "list_ex (\<lambda>domain. includesStr (toLowerCase (hostname urlObj)) domain
                 \<or> endsWith (toLowerCase (hostname urlObj)) domain) excludeDomains
        \<longleftrightarrow> (\<exists>domain \<in> set excludeDomains. sublist domain (toLowerCase (hostname urlObj)))"
    by (auto simp: list_ex_iff includesStr_sublist endsWith_suffix dest: suffix_sublist)
  have dot: "includesStr (toLowerCase (hostname urlObj)) ''.''
        \<longleftrightarrow> CHR ''.'' \<in> set (toLowerCase (hostname urlObj))"
    by (simp add: includesStr_sublist sublist_single)
  show ?thesis
    unfolding isValidUrl_def Some option.case Let_def ex dot
    by (auto simp: includesStr_sublist startsWith_prefix)
qed

theorem isValidUrl_accepts_witness:
  "newURL urlEnv ''https://blog.acme.io/news'' =
     Some \<lparr> protocol = ''https:'', hostname = ''blog.acme.io'', pathname = ''/news'' \<rparr>
   \<and> isValidUrl urlEnv ''https://blog.acme.io/news''"
proof -
  have p: "newURL urlEnv ''https://blog.acme.io/news'' =
     Some \<lparr> protocol = ''https:'', hostname = ''blog.acme.io'', pathname = ''/news'' \<rparr>"
    by (simp add: urlEnv_def)
  have l: "toLowerCase ''blog.acme.io'' = ''blog.acme.io''" by code_simp
  have "\<not> includesStr ''blog.acme.io'' ''localhost''" by code_simp
  then have a: "\<not> sublist ''localhost'' ''blog.acme.io''" by (simp add: includesStr_sublist)
  have "list_all (\<lambda>domain. \<not> includesStr ''blog.acme.io'' domain) excludeDomains" by code_simp
  then have b: "\<forall>domain \<in> set excludeDomains. \<not> sublist domain ''blog.acme.io''"
    by (simp add: list_all_iff includesStr_sublist)
  have "isValidUrl urlEnv ''https://blog.acme.io/news''"
    unfolding isValidUrl_accepts [of urlEnv "''https://blog.acme.io/news''"] p
    using a b by (simp add: l)
  with p show ?thesis by blast
qed

text \<open>
  C7 as stated fails in both directions: \<open>httpx://shop.acme.io/a\<close> is accepted though its
  scheme is neither \<open>http\<close> nor \<open>https\<close>, and \<open>http://mylocalhost.net/\<close> is rejected though
  its scheme is \<open>http\<close> and its host has a dot, is not \<open>localhost\<close> and matches no entry of
  the exclusion list.
\<close>

theorem isValidUrl_counterexample:
  "newURL urlEnv ''httpx://shop.acme.io/a'' =
     Some \<lparr> protocol = ''httpx:'', hostname = ''shop.acme.io'', pathname = ''/a'' \<rparr>
   \<and> ''httpx:'' \<noteq> ''http:'' \<and> ''httpx:'' \<noteq> ''https:''
   \<and> isValidUrl urlEnv ''httpx://shop.acme.io/a''
   \<and> newURL urlEnv ''http://mylocalhost.net/'' =
     Some \<lparr> protocol = ''http:'', hostname = ''mylocalhost.net'', pathname = ''/'' \<rparr>
   \<and> CHR ''.'' \<in> set ''mylocalhost.net'' \<and> ''mylocalhost.net'' \<noteq> ''localhost''
   \<and> list_all (\<lambda>domain. \<not> sublist domain ''mylocalhost.net'' \<and> \<not> suffix domain ''mylocalhost.net'')
        excludeDomains
   \<and> \<not> isValidUrl urlEnv ''http://mylocalhost.net/''"
proof -
  have "isValidUrl urlEnv ''httpx://shop.acme.io/a''" by code_simp
  moreover have "\<not> isValidUrl urlEnv ''http://mylocalhost.net/''" by code_simp
  moreover have "list_all (\<lambda>domain. \<not> sublist domain ''mylocalhost.net'' \<and> \<not> suffix domain ''mylocalhost.net'')
        excludeDomains" by code_simp
  ultimately show ?thesis by (simp add: urlEnv_def)
qed

section \<open>The noise filter at an address of an example domain\<close>

text \<open>
  C1 says that \<open>filterEmails\<close> removes every address at an example domain.  Its patterns
  are anchored at the start of the address, the pattern \<open>/^@example/i\<close> with them, so an
  address such as \<open>user@example.com\<close> matches none and stays: in the list the filter
  returns, and in the record \<open>extractFromWordPressSite\<close> returns for a site whose front
  page links to \<open>mailto:user@example.com\<close>.
\<close>

theorem filterEmails_keeps_example_domain:
  "filterEmails [''user@example.com''] = [''user@example.com'']
   \<and> emails (recordInfo (fst (extractFromWordPressSite mailEnv 0 ''acme.test'')))
       = [''user@example.com'']"
  by code_simp

section \<open>Properties of phone extraction\<close>

lemma replaceAllFrom_class:
  "replaceAllFrom (Chr p) [] 0 s = filter (\<lambda>c. \<not> p c) s"
  by (induction s) simp_all

lemma cleanPhone_filter:
  "cleanPhone phone = filter (\<lambda>c. isDigit c \<or> c = CHR ''+'') phone"
  by (simp add: cleanPhone_def replaceAll_def replaceAllFrom_class)

lemma set_setAdd: "set (setAdd xs x) = insert x (set xs)"
  by (auto simp: setAdd_def)

lemma set_foldl_addPhone:
  "set (foldl addPhone ps ms) =
     set ps \<union> {trim m |m. m \<in> set ms \<and> 7 \<le> length (cleanPhone m)}"
  by (induction ms arbitrary: ps) (auto simp: addPhone_def set_setAdd)

text \<open>
  C2, as the code has it.  A match of the phone pattern is added to the phones exactly
  when what is left of it after removing every unit that is neither a digit nor \<open>+\<close> has
  length 7 or more; it is stored as matched, trimmed.  So the phones after a page are the
  phones before it and the trimmed matches of that kind in the page's text.
\<close>

theorem phones_kept:
  "addPhone ps m =
     (if 7 \<le> length (filter (\<lambda>c. isDigit c \<or> c = CHR ''+'') m) then setAdd ps (trim m) else ps)
   \<and> set (phones (fst (processPage e n u d info))) =
       set (phones info) \<union>
       {trim m |m. m \<in> set (matchAll phoneRegex (pageText d))
                  \<and> 7 \<le> length (filter (\<lambda>c. isDigit c \<or> c = CHR ''+'') m)}"
proof
  show "addPhone ps m =
     (if 7 \<le> length (filter (\<lambda>c. isDigit c \<or> c = CHR ''+'') m) then setAdd ps (trim m) else ps)"
    by (simp add: addPhone_def cleanPhone_filter)
  have "phones (fst (processPage e n u d info)) =
      foldl addPhone (phones info) (matchAll phoneRegex (pageText d))"
    by (simp add: processPage_def split: prod.splits)
  then show "set (phones (fst (processPage e n u d info))) =
       set (phones info) \<union>
       {trim m |m. m \<in> set (matchAll phoneRegex (pageText d))
                  \<and> 7 \<le> length (filter (\<lambda>c. isDigit c \<or> c = CHR ''+'') m)}"
    by (simp add: set_foldl_addPhone cleanPhone_filter)
qed

text \<open>
  C2 as stated fails: the text \<open>+123456\<close> is one match of the pattern, its digit-only form
  has length 6, and the record keeps it (the \<open>+\<close> is counted).
\<close>

theorem phones_counterexample:
  "matchAll phoneRegex ''+123456'' = [''+123456'']
   \<and> length (filter isDigit ''+123456'') = 6
   \<and> phones (recordInfo (fst (extractFromWordPressSite phoneEnv 0 ''acme.test''))) = [''+123456'']"
  by code_simp

section \<open>Properties of the social links\<close>

lemma snd_extractEmailsFromPage: "snd (extractEmailsFromPage e n u) = Suc n"
  by (simp add: extractEmailsFromPage_def Let_def split: sum.splits)

lemma processPage_social:
  "socialMedia (fst (processPage e n u d info)) =
     foldl addSocial (socialMedia info) (filter socialSelected (hrefs d))"
  by (simp add: processPage_def split: prod.splits)

lemma snd_processPage: "snd (processPage e n u d info) = Suc n"
  using snd_extractEmailsFromPage [of e n u]
  by (cases "extractEmailsFromPage e n u") (simp add: processPage_def)

lemma pagesLoop_social:
  "socialMedia (fst (pagesLoop e n info us)) =
     foldl addSocial (socialMedia info) (socialAnchors e n us)"
proof (induction us arbitrary: n info)
  case Nil
  show ?case by simp
next
  case (Cons u us)
  show ?case
  proof (cases "get e n u")
    case (Inl err)
    with Cons show ?thesis by simp
  next
    case (Inr r)
    obtain info' n' where p: "processPage e (Suc n) u (load e (data r)) info = (info', n')"
      by (cases "processPage e (Suc n) u (load e (data r)) info")
    then have "n' = Suc (Suc n)"
      using snd_processPage [of e "Suc n" u "load e (data r)" info] by simp
    moreover have "socialMedia info' =
        foldl addSocial (socialMedia info) (filter socialSelected (hrefs (load e (data r))))"
      using processPage_social [of e "Suc n" u "load e (data r)" info] p by simp
    ultimately show ?thesis using Inr p Cons [of "Suc (Suc n)" info'] by simp
  qed
qed

lemma foldl_addSocial_other:
  "\<forall>b \<in> set bs. platformOf b \<noteq> p \<Longrightarrow> foldl addSocial sm bs p = sm p"
  by (induction bs arbitrary: sm) (auto simp: addSocial_def)

lemma foldl_addSocial_last:
  assumes "\<forall>b \<in> set bs. platformOf b \<noteq> platformOf a"
  shows "foldl addSocial sm (as @ a # bs) (platformOf a) = Some a"
proof -
  have "foldl addSocial sm (as @ a # bs) =
      foldl addSocial (addSocial (foldl addSocial sm as) a) bs" by simp
  then show ?thesis
    using foldl_addSocial_other [OF assms] by (simp add: addSocial_def)
qed

text \<open>
  C8, as the code has it.  An anchor is filed under the first of \<open>facebook\<close>, \<open>twitter\<close>,
  \<open>linkedin\<close>, \<open>instagram\<close> that its target contains (\<open>platformOf\<close>), and a later anchor
  overwrites every earlier one filed under the same platform.  So, right after a page is
  processed, the entry of a platform is the target of the page's last anchor filed under
  it; and in the record of the site it is the target of the last such anchor over all
  candidate pages that were fetched, in the order of the crawl.  A target that contains
  \<open>facebook.com\<close> is selected and filed under Facebook.
\<close>

theorem socialMedia_last_wins:
  "(filter socialSelected (hrefs d) = as @ a # bs \<and> (\<forall>b \<in> set bs. platformOf b \<noteq> platformOf a)
      \<longrightarrow> socialMedia (fst (processPage e n u d info)) (platformOf a) = Some a)
   \<and> (socialAnchors e n (map (\<lambda>page. ensureProtocol baseUrl @ page) commonPages) = as @ a # bs
        \<and> (\<forall>b \<in> set bs. platformOf b \<noteq> platformOf a)
      \<longrightarrow> socialMedia (recordInfo (fst (extractFromWordPressSite e n baseUrl))) (platformOf a)
            = Some a)
   \<and> (sublist ''facebook.com'' a \<longrightarrow> socialSelected a \<and> platformOf a = Facebook)"
proof (intro conjI impI)
  assume "filter socialSelected (hrefs d) = as @ a # bs \<and> (\<forall>b \<in> set bs. platformOf b \<noteq> platformOf a)"
  then show "socialMedia (fst (processPage e n u d info)) (platformOf a) = Some a"
    by (simp add: processPage_social foldl_addSocial_last del: foldl_append)
next
  assume h: "socialAnchors e n (map (\<lambda>page. ensureProtocol baseUrl @ page) commonPages) = as @ a # bs
        \<and> (\<forall>b \<in> set bs. platformOf b \<noteq> platformOf a)"
  have "socialMedia (recordInfo (fst (extractFromWordPressSite e n baseUrl))) =
      socialMedia (fst (extractContactInfo e n baseUrl))"
    by (simp add: extractFromWordPressSite_def split: prod.splits)
  also have "\<dots> = foldl addSocial Map.empty (as @ a # bs)"
    using h by (simp add: extractContactInfo_def pagesLoop_social del: foldl_append)
  finally show "socialMedia (recordInfo (fst (extractFromWordPressSite e n baseUrl))) (platformOf a)
            = Some a"
    using h foldl_addSocial_last by metis
next
  assume f: "sublist ''facebook.com'' a"
  then show "socialSelected a" by (simp add: socialSelected_def includesStr_sublist)
  have "sublist ''facebook'' ''facebook.com''"
    unfolding includesStr_sublist [symmetric] by (simp add: startsWith_def)
  with f have "sublist ''facebook'' a" using sublist_order.order_trans by blast
  then show "platformOf a = Facebook" by (simp add: platformOf_def includesStr_sublist)
qed

theorem socialMedia_last_wins_witness:
  "socialAnchors onePageEnv 0 (map (\<lambda>page. ensureProtocol ''acme.test'' @ page) commonPages)
     = [''https://facebook.com/acme'', ''https://facebook.com/acme.shop'']
   \<and> platformOf ''https://facebook.com/acme.shop'' = Facebook
   \<and> socialMedia (recordInfo (fst (extractFromWordPressSite onePageEnv 0 ''acme.test''))) Facebook
       = Some ''https://facebook.com/acme.shop''"
proof -
  have h: "socialAnchors onePageEnv 0 (map (\<lambda>page. ensureProtocol ''acme.test'' @ page) commonPages)
     = [''https://facebook.com/acme''] @ ''https://facebook.com/acme.shop'' # []"
    by code_simp
  have p: "platformOf ''https://facebook.com/acme.shop'' = Facebook"
    by code_simp
  from socialMedia_last_wins [where e = onePageEnv and n = 0 and baseUrl = "''acme.test''"
      and as = "[''https://facebook.com/acme'']" and a = "''https://facebook.com/acme.shop''"
      and bs = "[]"] h
  have "socialMedia (recordInfo (fst (extractFromWordPressSite onePageEnv 0 ''acme.test'')))
      (platformOf ''https://facebook.com/acme.shop'') = Some ''https://facebook.com/acme.shop''"
    by simp
  with h p show ?thesis by simp
qed

text \<open>
  C8 as stated fails.  The front page of \<open>acme.test\<close> has two anchors to \<open>facebook.com\<close>
  and two to \<open>twitter.com\<close>.  The record's Facebook entry is neither of the two: it is the
  anchor of the \<open>/contact\<close> page, fetched later.  Its Twitter entry is the earlier of the
  two Twitter anchors: the later one names Facebook and is filed there.
\<close>

theorem socialMedia_counterexample:
  "filter (\<lambda>h. sublist ''facebook.com'' h) frontHrefs
     = [''https://facebook.com/acme'', ''https://facebook.com/acme.shop'']
   \<and> filter (\<lambda>h. sublist ''twitter.com'' h) frontHrefs
     = [''https://twitter.com/acme'', ''https://twitter.com/share?via=facebook'']
   \<and> socialMedia (recordInfo (fst (extractFromWordPressSite socialEnv 0 ''acme.test''))) Facebook
       = Some ''https://www.facebook.com/sharer.php?u=acme.test''
   \<and> socialMedia (recordInfo (fst (extractFromWordPressSite socialEnv 0 ''acme.test''))) Twitter
       = Some ''https://twitter.com/acme''"
  by code_simp

section \<open>Properties of the pipeline without validation\<close>

lemma scrapeWebsite_verdict:
  "fst (scrapeWebsite opts e n u) = Some r \<Longrightarrow> \<exists>b. isWordPress r = Verdict b"
  by (auto simp: scrapeWebsite_def failed_def Let_def split: prod.splits sum.splits if_splits)

lemma scrapeLoop_verdicts:
  "\<forall>r \<in> set acc. \<exists>b. isWordPress r = Verdict b \<Longrightarrow>
   \<forall>r \<in> set (fst (scrapeLoop opts e n acc us)). \<exists>b. isWordPress r = Verdict b"
proof (induction us arbitrary: n acc)
  case Nil
  then show ?case by simp
next
  case (Cons u us)
  show ?case
  proof (cases "scrapeWebsite opts e n u")
    case (Pair res n')
    show ?thesis
    proof (cases res)
      case None
      with Pair Cons.IH [OF Cons.prems, of n'] show ?thesis by simp
    next
      case (Some r)
      with Pair have "\<exists>b. isWordPress r = Verdict b"
        using scrapeWebsite_verdict [of opts e n u r] by simp
      with Cons.prems have "\<forall>x \<in> set (acc @ [r]). \<exists>b. isWordPress x = Verdict b" by auto
      from Cons.IH [OF this, of n'] Pair Some show ?thesis by simp
    qed
  qed
qed

lemma scrapeBatch_verdicts:
  "\<forall>r \<in> set (fst (scrapeBatch opts e n urls args)). \<exists>b. isWordPress r = Verdict b"
  using scrapeLoop_verdicts [of "[]" opts e n urls] by (simp add: scrapeBatch_def)

lemma rowsOf_rows:
  "row \<in> set (rowsOf s) \<Longrightarrow>
     csvUrl row = url s \<and> wordpressDetected row = (if truthy (isWordPress s) then ''Yes'' else ''No'')"
  by (auto simp: rowsOf_def rowFor_def split: option.splits if_splits)

lemma exportToCSV_rows:
  "row \<in> set (exportToCSV sites) \<Longrightarrow>
     \<exists>s \<in> set sites. csvUrl row = url s
        \<and> wordpressDetected row = (if truthy (isWordPress s) then ''Yes'' else ''No'')"
  using rowsOf_rows by (fastforce simp: exportToCSV_def)

lemma extractDomains_Nil: "extractDomains e rs = [] \<longleftrightarrow> rs = []"
  by (simp add: extractDomains_def)

lemma scrapeBatch_Nil: "scrapeBatch opts e n [] args = ([], n)"
  by (simp add: scrapeBatch_def)

lemma pipeline_skip:
  assumes "\<not> validateWordPress po"
  shows "wordpressSites (fst (findAndScrapeWordPressSites po so e n results))
           = map notValidated (extractDomains e results)"
    and "contactData (fst (findAndScrapeWordPressSites po so e n results)) =
           (if results \<noteq> [] \<and> extractEmails po
            then fst (scrapeBatch so e n (extractDomains e results)
                        \<lparr> argOnlyWordPress = Some False, argDelay = Some 2000 \<rparr>)
            else [])"
    and "results \<noteq> [] \<Longrightarrow>
         summary (fst (findAndScrapeWordPressSites po so e n results)) =
           Some (generateSummary
             ((fst (findAndScrapeWordPressSites po so e n results)) \<lparr> summary := None \<rparr>))"
  using assms
  by (simp_all add: findAndScrapeWordPressSites_def Let_def extractDomains_Nil scrapeBatch_Nil
      split: prod.splits)

lemma confirmed_notValidated:
  "wordpressSites p = map notValidated us \<Longrightarrow>
     confirmedWordPressSites (generateSummary p) = 0 \<and> sitesValidated (generateSummary p) = length us"
proof -
  assume w: "wordpressSites p = map notValidated us"
  have "filter (\<lambda>s. isWordPress s = Verdict True) (map notValidated us) = []"
    by (simp add: filter_empty_conv notValidated_def)
  with w show ?thesis by (simp add: generateSummary_def Let_def)
qed

text \<open>
  The exporter by itself tests the truth value of \<open>isWordPress\<close>, so a tagged record handed
  to it would read \<open>Yes\<close>; the pipeline never hands it one, as the theorem after this
  lemma shows.
\<close>

lemma exportToCSV_tagged:
  "map wordpressDetected (exportToCSV [notValidated u]) = [''Yes'']"
  by (simp add: exportToCSV_def rowsOf_def rowFor_def siteEmails_def notValidated_def)

text \<open>
  C9.  When validation is skipped, the pipeline's \<open>wordpressSites\<close> holds one record per
  discovered address, each tagged \<open>'not_validated'\<close>.  The summary counts none of them as
  a confirmed site.  The exports are made from \<open>contactData\<close>, whose records all carry the
  boolean verdict of their own detection and never the tag: no row of the tabular export
  is made from a tagged record, and a row says \<open>Yes\<close> exactly when that verdict is
  \<open>true\<close>.
\<close>

theorem not_validated_distinct:
  assumes "\<not> validateWordPress po"
  shows "wordpressSites (fst (findAndScrapeWordPressSites po so e n results)) =
           map (\<lambda>u. \<lparr> url = u, isWordPress = NotValidated, indicator = None, confidence = None,
                       contact = None, error = None, extractedAt = None \<rparr>)
               (extractDomains e results)
       \<and> (results \<noteq> [] \<longrightarrow>
            (\<exists>s. summary (fst (findAndScrapeWordPressSites po so e n results)) = Some s
                 \<and> confirmedWordPressSites s = 0))
       \<and> (\<forall>row \<in> set (exportedRows (fst (findAndScrapeWordPressSites po so e n results))).
            \<exists>s \<in> set (contactData (fst (findAndScrapeWordPressSites po so e n results))).
              \<exists>b. isWordPress s = Verdict b \<and> csvUrl row = url s
                   \<and> wordpressDetected row = (if b then ''Yes'' else ''No''))
       \<and> (\<forall>s \<in> set (contactData (fst (findAndScrapeWordPressSites po so e n results))).
            isWordPress s \<noteq> NotValidated)"
proof -
  let ?p = "fst (findAndScrapeWordPressSites po so e n results)"
  have w: "wordpressSites ?p = map notValidated (extractDomains e results)"
    by (rule pipeline_skip(1) [OF assms])
  have c: "contactData ?p =
           (if results \<noteq> [] \<and> extractEmails po
            then fst (scrapeBatch so e n (extractDomains e results)
                        \<lparr> argOnlyWordPress = Some False, argDelay = Some 2000 \<rparr>)
            else [])"
    by (rule pipeline_skip(2) [OF assms])
  have verdicts: "\<exists>b. isWordPress s = Verdict b" if "s \<in> set (contactData ?p)" for s
  proof (cases "results \<noteq> [] \<and> extractEmails po")
    case True
    with that c have "s \<in> set (fst (scrapeBatch so e n (extractDomains e results)
                        \<lparr> argOnlyWordPress = Some False, argDelay = Some 2000 \<rparr>))"
      by simp
    then show ?thesis using scrapeBatch_verdicts by blast
  next
    case False
    with that c show ?thesis by simp
  qed
  have 1: "wordpressSites ?p =
           map (\<lambda>u. \<lparr> url = u, isWordPress = NotValidated, indicator = None, confidence = None,
                       contact = None, error = None, extractedAt = None \<rparr>)
               (extractDomains e results)"
    unfolding w by (simp add: notValidated_def)
  have 2: "\<exists>s. summary ?p = Some s \<and> confirmedWordPressSites s = 0" if "results \<noteq> []"
  proof -
    have s: "summary ?p = Some (generateSummary (?p \<lparr> summary := None \<rparr>))"
      by (rule pipeline_skip(3) [OF assms that])
    have "wordpressSites (?p \<lparr> summary := None \<rparr>) = map notValidated (extractDomains e results)"
      using w by simp
    from confirmed_notValidated [OF this] s show ?thesis by blast
  qed
  have 3: "\<exists>s \<in> set (contactData ?p). \<exists>b. isWordPress s = Verdict b \<and> csvUrl row = url s
                   \<and> wordpressDetected row = (if b then ''Yes'' else ''No'')"
    if "row \<in> set (exportedRows ?p)" for row
  proof -
    from that have "row \<in> set (exportToCSV (contactData ?p))"
      by (simp add: exportedRows_def split: if_splits)
    from exportToCSV_rows [OF this] obtain s where s: "s \<in> set (contactData ?p)"
      "csvUrl row = url s" "wordpressDetected row = (if truthy (isWordPress s) then ''Yes'' else ''No'')"
      by blast
    from verdicts [OF s(1)] obtain b where b: "isWordPress s = Verdict b" by blast
    with s(3) have "wordpressDetected row = (if b then ''Yes'' else ''No'')" by simp
    with s(1,2) b show ?thesis by blast
  qed
  have 4: "isWordPress s \<noteq> NotValidated" if "s \<in> set (contactData ?p)" for s
    using verdicts [OF that] by auto
  from 1 2 3 4 show ?thesis by blast
qed

theorem not_validated_distinct_witness:
  "\<not> validateWordPress skipValidate
   \<and> wordpressSites (fst (findAndScrapeWordPressSites skipValidate keepAll sampleEnv 0 sampleResults)) =
       [\<lparr> url = ''wp.test'', isWordPress = NotValidated, indicator = None, confidence = None,
          contact = None, error = None, extractedAt = None \<rparr>,
        \<lparr> url = ''plain.test'', isWordPress = NotValidated, indicator = None, confidence = None,
          contact = None, error = None, extractedAt = None \<rparr>]
   \<and> (\<exists>s. summary (fst (findAndScrapeWordPressSites skipValidate keepAll sampleEnv 0 sampleResults))
              = Some s \<and> confirmedWordPressSites s = 0)
   \<and> map wordpressDetected
         (exportedRows (fst (findAndScrapeWordPressSites skipValidate keepAll sampleEnv 0 sampleResults)))
       = [''Yes'', ''No'']"
proof -
  have h: "\<not> validateWordPress skipValidate" by (simp add: skipValidate_def)
  have d: "extractDomains sampleEnv sampleResults = [''wp.test'', ''plain.test'']"
    by (simp add: extractDomains_def sampleEnv_def sampleResults_def)
  have r: "sampleResults \<noteq> []" by (simp add: sampleResults_def)
  have x: "map wordpressDetected
         (exportedRows (fst (findAndScrapeWordPressSites skipValidate keepAll sampleEnv 0 sampleResults)))
       = [''Yes'', ''No'']"
    by code_simp
  from not_validated_distinct [OF h, of keepAll sampleEnv 0 sampleResults] d r x h
  show ?thesis by simp
qed

section \<open>Properties of the numbers\<close>

lemma ilog2_le:
  assumes "0 < x"
  shows "2 powi (ilog2 x) \<le> x"
proof -
  obtain p q where pq: "quotient_of x = (p, q)" by (cases "quotient_of x")
  then have q: "0 < q" using quotient_of_denom_pos by blast
  have x: "x = of_int p / of_int q" using pq by (rule quotient_of_div)
  with assms q have p: "0 < p" by (simp add: zero_less_divide_iff)
  let ?e = "bitlen p - bitlen q"
  show ?thesis
  proof (cases "(2::rat) powi ?e \<le> x")
    case True
    then show ?thesis by (simp add: ilog2_def pq)
  next
    case False
    have bp: "2 ^ nat (bitlen p - 1) \<le> p" using bitlen_bounds [OF p] by simp
    have bq: "q < 2 ^ nat (bitlen q)" using bitlen_bounds [OF q] by simp
    have p1: "1 \<le> bitlen p" using p by (simp add: bitlen_alt_def)
    have "(2::rat) powi (bitlen p - 1) = 2 ^ nat (bitlen p - 1)"
      using p1 by (simp add: power_int_def)
    also have "\<dots> \<le> of_int p" using bp by (metis of_int_le_iff of_int_numeral of_int_power)
    finally have a: "(2::rat) powi (bitlen p - 1) \<le> of_int p" .
    have "(of_int q :: rat) \<le> 2 ^ nat (bitlen q)"
      using bq by (metis less_imp_le of_int_le_iff of_int_numeral of_int_power)
    also have "\<dots> = 2 powi (bitlen q)"
      using bitlen_nonneg [of q] by (simp add: power_int_def)
    finally have b: "(of_int q :: rat) \<le> 2 powi (bitlen q)" .
    have "(2::rat) powi (?e - 1) = 2 powi ((bitlen p - 1) - bitlen q)"
      by (rule arg_cong [where f = "\<lambda>n. 2 powi n"]) simp
    also have "\<dots> = 2 powi (bitlen p - 1) / 2 powi (bitlen q)"
      by (rule power_int_diff) simp
    also have "\<dots> \<le> of_int p / of_int q"
      using a b p q by (intro frac_le) simp_all
    finally have "(2::rat) powi (?e - 1) \<le> x" using x by simp
    with False show ?thesis by (simp add: ilog2_def pq)
  qed
qed

text \<open>With \<open>ilog2_le\<close>: \<open>ilog2 x\<close> is the exponent of \<open>x\<close>, the floor of its binary logarithm.\<close>

lemma ilog2_less:
  assumes "0 < x"
  shows "x < 2 powi (ilog2 x + 1)"
proof -
  obtain p q where pq: "quotient_of x = (p, q)" by (cases "quotient_of x")
  then have q: "0 < q" using quotient_of_denom_pos by blast
  have x: "x = of_int p / of_int q" using pq by (rule quotient_of_div)
  with assms q have p: "0 < p" by (simp add: zero_less_divide_iff)
  let ?e = "bitlen p - bitlen q"
  show ?thesis
  proof (cases "(2::rat) powi ?e \<le> x")
    case True
    have bp: "p < 2 ^ nat (bitlen p)" using bitlen_bounds [OF p] by simp
    have bq: "2 ^ nat (bitlen q - 1) \<le> q" using bitlen_bounds [OF q] by simp
    have q1: "1 \<le> bitlen q" using q by (simp add: bitlen_alt_def)
    have "(of_int p :: rat) < 2 ^ nat (bitlen p)"
      using bp by (metis of_int_less_iff of_int_numeral of_int_power)
    also have "\<dots> = 2 powi (bitlen p)"
      using bitlen_nonneg [of p] by (simp add: power_int_def)
    finally have a: "(of_int p :: rat) < 2 powi (bitlen p)" .
    have "(2::rat) powi (bitlen q - 1) = 2 ^ nat (bitlen q - 1)"
      using q1 by (simp add: power_int_def)
    also have "\<dots> \<le> of_int q" using bq by (metis of_int_le_iff of_int_numeral of_int_power)
    finally have b: "(2::rat) powi (bitlen q - 1) \<le> of_int q" .
    have "of_int p / of_int q < 2 powi (bitlen p) / (of_int q :: rat)"
      using a q by (simp add: divide_strict_right_mono)
    also have "\<dots> \<le> 2 powi (bitlen p) / 2 powi (bitlen q - 1)"
      using b by (intro divide_left_mono) (simp_all add: q)
    also have "\<dots> = 2 powi (bitlen p - (bitlen q - 1))"
      by (rule power_int_diff [symmetric]) simp
    also have "\<dots> = 2 powi (?e + 1)"
      by (rule arg_cong [where f = "\<lambda>n. 2 powi n"]) simp
    finally have "x < 2 powi (?e + 1)" using x by simp
    with True show ?thesis by (simp add: ilog2_def pq)
  next
    case False
    then have "x < 2 powi ?e" by simp
    with False show ?thesis by (simp add: ilog2_def pq)
  qed
qed

lemma roundEven_near: "\<bar>of_int (roundEven m) - m\<bar> \<le> 1 / 2"
proof -
  have "of_int \<lfloor>m\<rfloor> \<le> m" "m < of_int \<lfloor>m\<rfloor> + 1" by linarith+
  then show ?thesis by (auto simp: roundEven_def Let_def)
qed

lemma fl_error:
  assumes "0 < x"
  shows "\<bar>fl x - x\<bar> \<le> x / 2 ^ 53"
proof -
  define u :: rat where "u = 2 powi (ilog2 x - 52)"
  have u: "0 < u" by (simp add: u_def)
  have "u = 2 powi (ilog2 x) / 2 ^ 52"
    by (simp add: u_def power_int_diff)
  also have "\<dots> \<le> x / 2 ^ 52" using ilog2_le [OF assms] by (simp add: divide_right_mono)
  finally have ux: "u \<le> x / 2 ^ 52" .
  have "fl x - x = (of_int (roundEven (x / u)) - x / u) * u"
    using u assms by (simp add: fl_def u_def Let_def algebra_simps)
  then have "\<bar>fl x - x\<bar> = \<bar>of_int (roundEven (x / u)) - x / u\<bar> * u"
    using u by (simp add: abs_mult)
  also have "\<dots> \<le> 1 / 2 * u"
    using roundEven_near [of "x / u"] u by (intro mult_right_mono) simp_all
  also have "\<dots> \<le> 1 / 2 * (x / 2 ^ 52)" using ux by simp
  also have "\<dots> = x / 2 ^ 53" by simp
  finally show ?thesis .
qed

lemma fl_nonneg: "0 \<le> x \<Longrightarrow> 0 \<le> fl x"
proof -
  assume "0 \<le> x"
  show ?thesis
  proof (cases "x = 0")
    case True
    then show ?thesis by (simp add: fl_def)
  next
    case False
    with \<open>0 \<le> x\<close> have "0 < x" by simp
    from fl_error [OF this] have "x - x / 2 ^ 53 \<le> fl x" by linarith
    moreover have "0 \<le> x - x / 2 ^ 53" using \<open>0 < x\<close> by (simp add: field_simps)
    ultimately show ?thesis by linarith
  qed
qed


lemma digitChar_0: "digitChar 0 = CHR ''0''"
  by code_simp

lemma showNat_digit: "n < 10 \<Longrightarrow> showNat n = [digitChar n]"
  by simp

lemma showNat_split: "10 \<le> n \<Longrightarrow> showNat n = showNat (n div 10) @ showNat (n mod 10)"
  by (subst showNat.simps) simp

lemma toFixed1_shape:
  "toFixed1 x =
     showNat (nat \<lfloor>x * 10 + 1 / 2\<rfloor> div 10) @ ''.'' @ showNat (nat \<lfloor>x * 10 + 1 / 2\<rfloor> mod 10)"
proof -
  define k where "k = nat \<lfloor>x * 10 + 1 / 2\<rfloor>"
  have m: "showNat (k mod 10) = [digitChar (k mod 10)]" by (rule showNat_digit) simp
  show ?thesis
  proof (cases "k < 10")
    case True
    then have "showNat (k div 10) = ''0''" by (simp add: digitChar_0)
    with True m show ?thesis
      unfolding toFixed1_def k_def [symmetric] Let_def by simp
  next
    case False
    then have "showNat k = showNat (k div 10) @ [digitChar (k mod 10)]"
      using showNat_split [of k] m by simp
    with False m show ?thesis
      unfolding toFixed1_def k_def [symmetric] Let_def by (simp add: butlast_append)
  qed
qed

lemma toFixed1_near:
  fixes x :: rat
  assumes "0 \<le> x"
  shows "\<bar>of_nat (nat \<lfloor>x * 10 + 1 / 2\<rfloor>) / 10 - x\<bar> \<le> 1 / 20"
proof -
  define k where "k = \<lfloor>x * 10 + 1 / 2\<rfloor>"
  have "0 \<le> k" using assms by (simp add: k_def)
  then have n: "(of_nat (nat k) :: rat) = of_int k" by simp
  have "of_int k \<le> x * 10 + 1 / 2" "x * 10 + 1 / 2 < of_int k + 1"
    unfolding k_def by linarith+
  then have "rat_of_int k / 10 - x \<le> 1 / 20" "- (1 / 20) \<le> rat_of_int k / 10 - x"
    by linarith+
  then show ?thesis unfolding k_def [symmetric] n abs_le_iff by (intro conjI; linarith)
qed

lemma rate_error:
  assumes "c \<le> v" and "0 < v"
  shows "0 \<le> fl (fl (of_nat c / of_nat v) * 100)"
    and "\<bar>fl (fl (of_nat c / of_nat v) * 100) - of_nat c / of_nat v * 100\<bar> \<le> 1 / 2 ^ 45"
proof -
  define q :: rat where "q = of_nat c / of_nat v"
  have q: "0 \<le> q" "q \<le> 1" using assms by (simp_all add: q_def)
  have f0: "0 \<le> fl q" using q(1) by (rule fl_nonneg)
  then show "0 \<le> fl (fl (of_nat c / of_nat v) * 100)"
    unfolding q_def [symmetric] by (intro fl_nonneg) simp
  show "\<bar>fl (fl (of_nat c / of_nat v) * 100) - of_nat c / of_nat v * 100\<bar> \<le> 1 / 2 ^ 45"
    unfolding q_def [symmetric]
  proof (cases "q = 0")
    case True
    then show "\<bar>fl (fl q * 100) - q * 100\<bar> \<le> 1 / 2 ^ 45" by (simp add: fl_def)
  next
    case False
    with q have qp: "0 < q" by simp
    have "q / 2 ^ 53 \<le> 1 / 2 ^ 53" using q(2) by (intro divide_right_mono) simp_all
    with fl_error [OF qp] have e1: "\<bar>fl q - q\<bar> \<le> 1 / 2 ^ 53" by (rule order_trans)
    have qq: "q / 2 ^ 53 \<le> q" using qp by (simp add: field_simps)
    have "q / 2 ^ 53 < q" using qp by (simp add: field_simps)
    moreover have "- (fl q - q) \<le> q / 2 ^ 53" by (rule abs_le_D2 [OF fl_error [OF qp]])
    ultimately have "0 < fl q" by linarith
    then have fp: "0 < fl q * 100" by simp
    have "(1::rat) / 2 ^ 53 \<le> 1 / 100" by simp
    moreover have "fl q - q \<le> 1 / 2 ^ 53" by (rule abs_le_D1 [OF e1])
    ultimately have "fl q \<le> 101 / 100" using q(2) by linarith
    then have f2: "fl q * 100 \<le> 101" by simp
    have "\<bar>fl (fl q * 100) - fl q * 100\<bar> \<le> fl q * 100 / 2 ^ 53" by (rule fl_error [OF fp])
    also have "\<dots> \<le> 101 / 2 ^ 53" using f2 by (intro divide_right_mono) simp_all
    finally have e2: "\<bar>fl (fl q * 100) - fl q * 100\<bar> \<le> 101 / 2 ^ 53" .
    have "fl q * 100 - q * 100 = (fl q - q) * 100" by (simp add: algebra_simps)
    then have "\<bar>fl q * 100 - q * 100\<bar> = \<bar>fl q - q\<bar> * 100" by (simp only: abs_mult abs_numeral)
    also have "\<dots> \<le> 1 / 2 ^ 53 * 100" using e1 by (intro mult_right_mono) simp_all
    finally have e3: "\<bar>fl q * 100 - q * 100\<bar> \<le> 1 / 2 ^ 53 * 100" .
    have "fl (fl q * 100) - q * 100 = (fl (fl q * 100) - fl q * 100) + (fl q * 100 - q * 100)"
      by simp
    then have "\<bar>fl (fl q * 100) - q * 100\<bar>
        \<le> \<bar>fl (fl q * 100) - fl q * 100\<bar> + \<bar>fl q * 100 - q * 100\<bar>"
      by (simp only: abs_triangle_ineq)
    also have "\<dots> \<le> 101 / 2 ^ 53 + 1 / 2 ^ 53 * 100" using e2 e3 by (rule add_mono)
    also have "\<dots> \<le> 1 / 2 ^ 45" by simp
    finally show "\<bar>fl (fl q * 100) - q * 100\<bar> \<le> 1 / 2 ^ 45" .
  qed
qed

section \<open>Properties of the summary\<close>

text \<open>
  C5, as the code has it.  With no validated site the detection rate is the number 0.
  With \<open>v > 0\<close> validated sites, \<open>c\<close> of them confirmed, it is the string
  \<open>((c / v) * 100).toFixed(1)\<close>: a decimal numeral with one digit after the point, whose
  value is within \<open>0.05\<close> (and the rounding of the two floating-point operations, below
  \<open>2^-45\<close>) of \<open>c / v \<times> 100\<close>.
\<close>

theorem detection_rate:
  "(sitesValidated (generateSummary p) = 0 \<longrightarrow>
      wordpressDetectionRate (generateSummary p) = Num 0)
   \<and> (0 < sitesValidated (generateSummary p) \<longrightarrow>
        (\<exists>k. wordpressDetectionRate (generateSummary p)
                = Str (showNat (k div 10) @ ''.'' @ showNat (k mod 10))
           \<and> \<bar>of_nat k / 10
                - of_nat (confirmedWordPressSites (generateSummary p))
                  / of_nat (sitesValidated (generateSummary p)) * 100\<bar>
               \<le> (1 / 20 + 1 / 2 ^ 45 :: rat)))"
proof (intro conjI impI)
  assume "sitesValidated (generateSummary p) = 0"
  then show "wordpressDetectionRate (generateSummary p) = Num 0"
    by (simp add: generateSummary_def Let_def)
next
  define v where "v = length (wordpressSites p)"
  define c where "c = length (filter (\<lambda>s. isWordPress s = Verdict True) (wordpressSites p))"
  define x where "x = fl (fl (of_nat c / of_nat v) * 100)"
  define k where "k = nat \<lfloor>x * 10 + 1 / 2\<rfloor>"
  assume "0 < sitesValidated (generateSummary p)"
  then have v: "0 < v" by (simp add: generateSummary_def Let_def v_def)
  have cv: "c \<le> v" by (simp add: c_def v_def)
  have sv: "sitesValidated (generateSummary p) = v"
    and sc: "confirmedWordPressSites (generateSummary p) = c"
    by (simp_all add: generateSummary_def Let_def v_def c_def)
  have "wordpressDetectionRate (generateSummary p) = Str (toFixed1 x)"
    using v by (simp add: generateSummary_def Let_def v_def c_def x_def)
  then have r: "wordpressDetectionRate (generateSummary p)
                = Str (showNat (k div 10) @ ''.'' @ showNat (k mod 10))"
    by (simp only: toFixed1_shape k_def)
  have x0: "0 \<le> x" unfolding x_def by (rule rate_error(1) [OF cv v])
  have e1: "\<bar>x - of_nat c / of_nat v * 100\<bar> \<le> 1 / 2 ^ 45"
    unfolding x_def by (rule rate_error(2) [OF cv v])
  have e2: "\<bar>of_nat k / 10 - x\<bar> \<le> 1 / 20"
    unfolding k_def by (rule toFixed1_near [OF x0])
  have "of_nat k / 10 - of_nat c / of_nat v * 100
      = (of_nat k / 10 - x) + (x - of_nat c / of_nat v * 100)" by simp
  then have "\<bar>of_nat k / 10 - of_nat c / of_nat v * 100\<bar>
      \<le> \<bar>of_nat k / 10 - x\<bar> + \<bar>x - of_nat c / of_nat v * 100\<bar>"
    by (simp only: abs_triangle_ineq)
  also have "\<dots> \<le> 1 / 20 + 1 / 2 ^ 45" using e2 e1 by (rule add_mono)
  finally have "\<bar>of_nat k / 10 - of_nat c / of_nat v * 100\<bar> \<le> (1 / 20 + 1 / 2 ^ 45 :: rat)" .
  with r show "\<exists>k. wordpressDetectionRate (generateSummary p)
                = Str (showNat (k div 10) @ ''.'' @ showNat (k mod 10))
           \<and> \<bar>of_nat k / 10
                - of_nat (confirmedWordPressSites (generateSummary p))
                  / of_nat (sitesValidated (generateSummary p)) * 100\<bar>
               \<le> (1 / 20 + 1 / 2 ^ 45 :: rat)"
    unfolding sv sc by blast
qed

text \<open>
  C5 as stated fails: with one confirmed site of three validated the rate is the string
  \<open>33.3\<close>, not the number \<open>1 / 3 \<times> 100\<close>.
\<close>

theorem detection_rate_counterexample:
  "sitesValidated (generateSummary oneOfThree) = 3
   \<and> confirmedWordPressSites (generateSummary oneOfThree) = 1
   \<and> wordpressDetectionRate (generateSummary oneOfThree) = Str ''33.3''
   \<and> wordpressDetectionRate (generateSummary oneOfThree) \<noteq> Num (1 / 3 * 100)
   \<and> (333 / 10 :: rat) \<noteq> 1 / 3 * 100"
  by code_simp

theorem detection_rate_witness:
  "sitesValidated (generateSummary noSites) = 0
   \<and> wordpressDetectionRate (generateSummary noSites) = Num 0
   \<and> 0 < sitesValidated (generateSummary oneOfThree)
   \<and> (\<exists>k. wordpressDetectionRate (generateSummary oneOfThree)
             = Str (showNat (k div 10) @ ''.'' @ showNat (k mod 10))
          \<and> \<bar>of_nat k / 10 - 1 / 3 * 100\<bar> \<le> (1 / 20 + 1 / 2 ^ 45 :: rat))"
proof -
  have a: "sitesValidated (generateSummary noSites) = 0"
    by (simp add: generateSummary_def noSites_def)
  have b: "sitesValidated (generateSummary oneOfThree) = 3"
    by (simp add: generateSummary_def oneOfThree_def)
  have c: "confirmedWordPressSites (generateSummary oneOfThree) = 1"
    by (simp add: generateSummary_def oneOfThree_def verdictSite_def)
  from detection_rate [of noSites] a
  have 1: "wordpressDetectionRate (generateSummary noSites) = Num 0" by blast
  from detection_rate [of oneOfThree] b
  have 2: "\<exists>k. wordpressDetectionRate (generateSummary oneOfThree)
             = Str (showNat (k div 10) @ ''.'' @ showNat (k mod 10))
          \<and> \<bar>of_nat k / 10 - 1 / 3 * 100\<bar> \<le> (1 / 20 + 1 / 2 ^ 45 :: rat)"
    unfolding b c by simp
  from a 1 b 2 show ?thesis by simp
qed

end
